theory Spec2Isabelle
  imports Complex_Main
begin

section \<open>The C++ library as the program uses it\<close>

text \<open>
  The toll system (\<^verbatim>\<open>main.cpp\<close>) reads two text files through \<^verbatim>\<open>std::ifstream\<close>,
  \<^verbatim>\<open>std::getline\<close>, \<^verbatim>\<open>operator>>\<close>, \<^verbatim>\<open>std::stod\<close> and \<^verbatim>\<open>std::stoi\<close>, and
  appends to two log files. This section models those library calls, in the "C" locale
  the program runs in (it never sets another one).
\<close>

subsection \<open>Characters\<close>

definition isspace :: "char \<Rightarrow> bool" where
  "isspace c = (c = CHR '' '' \<or> c = CHR 0x09 \<or> c = CHR 0x0A \<or> c = CHR 0x0B \<or> c = CHR 0x0C \<or> c = CHR 0x0D)"

definition isdigit :: "char \<Rightarrow> bool" where
  "isdigit c = ((48::nat) \<le> of_char c \<and> of_char c \<le> (57::nat))"

definition digit_val :: "char \<Rightarrow> nat" where
  "digit_val c = of_char c - 48"

definition tolower :: "char \<Rightarrow> char" where
  "tolower c = (if (65::nat) \<le> of_char c \<and> of_char c \<le> (90::nat) then char_of (of_char c + (32::nat)) else c)"

definition isxdigit :: "char \<Rightarrow> bool" where
  "isxdigit c = (isdigit c \<or> ((97::nat) \<le> of_char (tolower c) \<and> of_char (tolower c) \<le> (102::nat)))"

definition xdigit_val :: "char \<Rightarrow> nat" where
  "xdigit_val c = (if isdigit c then digit_val c else of_char (tolower c) - 87)"

text \<open>The number a string of decimal (hexadecimal) digits denotes.\<close>

definition digits_val :: "string \<Rightarrow> nat" where
  "digits_val ds = foldl (\<lambda>n c. 10 * n + digit_val c) 0 ds"

definition xdigits_val :: "string \<Rightarrow> nat" where
  "xdigits_val ds = foldl (\<lambda>n c. 16 * n + xdigit_val c) 0 ds"

text \<open>An optional sign in front of a number: \<open>True\<close> for \<^verbatim>\<open>-\<close>.\<close>

fun take_sign :: "string \<Rightarrow> bool \<times> string" where
  "take_sign [] = (False, [])"
| "take_sign (c # s) =
     (if c = CHR ''-'' then (True, s) else if c = CHR ''+'' then (False, s) else (False, c # s))"

subsection \<open>Input streams\<close>

text \<open>
  An input stream is either \<^emph>\<open>good\<close>, with the characters not yet read, or it has
  \<^verbatim>\<open>eofbit\<close> or \<^verbatim>\<open>failbit\<close> set. The program never clears a stream's state, and every
  extraction from a stream that is not good fails and reads nothing, so the two bits need
  not be told apart once an operation has returned. What an extraction returns is
  \<open>Some\<close> of the value when the stream converts to \<^verbatim>\<open>true\<close> afterwards (\<^verbatim>\<open>failbit\<close>
  not set: an extraction that ran into the end of the input after reading something has
  succeeded), and \<open>None\<close> when it converts to \<^verbatim>\<open>false\<close>.
\<close>

datatype istream = Good string | NotGood

text \<open>
  \<^verbatim>\<open>std::getline(is, str, delim)\<close>: the characters up to the delimiter, which is
  extracted and dropped. At the end of the input the stream gets \<^verbatim>\<open>eofbit\<close>, and
  \<^verbatim>\<open>failbit\<close> too when nothing at all was extracted.
\<close>

fun getline :: "istream \<Rightarrow> char \<Rightarrow> string option \<times> istream" where
  "getline NotGood delim = (None, NotGood)"
| "getline (Good buf) delim =
     (case dropWhile (\<lambda>c. c \<noteq> delim) buf of
        [] \<Rightarrow> (if buf = [] then None else Some buf, NotGood)
      | d # rest \<Rightarrow> (Some (takeWhile (\<lambda>c. c \<noteq> delim) buf), Good rest))"

text \<open>
  The lines a \<^verbatim>\<open>while (std::getline(file, line))\<close> loop sees. Each successful
  \<open>getline\<close> leaves a shorter input, or a stream that is not good.
\<close>

fun pending :: "istream \<Rightarrow> nat" where
  "pending NotGood = 0"
| "pending (Good buf) = Suc (length buf)"

lemma getline_pending:
  "getline is delim = (Some line, is') \<Longrightarrow> pending is' < pending is"
proof (cases "is")
  case NotGood
  assume "getline is delim = (Some line, is')"
  with NotGood show ?thesis by simp
next
  case (Good buf)
  assume g: "getline is delim = (Some line, is')"
  have "length (dropWhile (\<lambda>c. c \<noteq> delim) buf) \<le> length buf"
    by (rule length_dropWhile_le)
  with g Good show ?thesis
    by (auto split: list.splits if_splits)
qed

function stream_lines :: "istream \<Rightarrow> string list" where
  "stream_lines is =
     (case getline is (CHR ''\<newline>'') of
        (None, _) \<Rightarrow> []
      | (Some line, is') \<Rightarrow> line # stream_lines is')"
  by pat_completeness auto
termination
  by (relation "measure pending") (auto intro: getline_pending [OF sym])

declare stream_lines.simps [simp del]

subsection \<open>Numbers\<close>

text \<open>
  A \<^verbatim>\<open>double\<close> is modelled by the rational number it holds, or one of the three special
  values. A decimal is converted as \<^verbatim>\<open>strtod\<close> converts it: to the nearest binary64
  value, ties to even, subnormal values included (\<open>round_double\<close>). A decimal of magnitude
  at least \<open>2^1024 - 2^970\<close> rounds to infinity: it \<open>overflows\<close>.
\<close>

datatype double = Finite rat | PInf | NInf | NaN

definition overflows :: "rat \<Rightarrow> bool" where
  "overflows v = (\<bar>v\<bar> \<ge> 2 ^ 1024 - 2 ^ 970)"

definition scale10 :: "rat \<Rightarrow> bool \<Rightarrow> nat \<Rightarrow> rat" where
  "scale10 m neg e = (if neg then m / 10 ^ e else m * 10 ^ e)"

definition scale2 :: "rat \<Rightarrow> bool \<Rightarrow> nat \<Rightarrow> rat" where
  "scale2 m neg e = (if neg then m / 2 ^ e else m * 2 ^ e)"

definition signed :: "bool \<Rightarrow> rat \<Rightarrow> rat" where
  "signed neg v = (if neg then - v else v)"

text \<open>
  The position of the leading bit of a positive number: \<open>ilog2 x\<close> is the integer \<open>e\<close>
  with \<open>2^e \<le> x < 2^(e+1)\<close>. A binary64 value near \<open>x\<close> is a multiple of \<open>ulp x\<close>: 53
  bits from the leading one, and from \<open>2^-1074\<close> up for the subnormal values.
\<close>

function bit_length :: "int \<Rightarrow> int" where
  "bit_length n = (if 0 < n then bit_length (n div 2) + 1 else 0)"
  by pat_completeness auto
termination
  by (relation "measure nat") auto

declare bit_length.simps [simp del]

definition ilog2 :: "rat \<Rightarrow> int" where
  "ilog2 x = (if 1 \<le> x then bit_length \<lfloor>x\<rfloor> - 1 else - bit_length (\<lceil>1 / x\<rceil> - 1))"

definition pow2 :: "int \<Rightarrow> rat" where
  "pow2 k = (if 0 \<le> k then 2 ^ nat k else 1 / 2 ^ nat (- k))"

definition ulp :: "rat \<Rightarrow> rat" where
  "ulp x = pow2 (max (ilog2 \<bar>x\<bar>) (- 1022) - 52)"

definition round_half_even :: "rat \<Rightarrow> int" where
  "round_half_even r =
     (if r - of_int \<lfloor>r\<rfloor> < 1 / 2 then \<lfloor>r\<rfloor>
      else if 1 / 2 < r - of_int \<lfloor>r\<rfloor> then \<lfloor>r\<rfloor> + 1
      else if even \<lfloor>r\<rfloor> then \<lfloor>r\<rfloor> else \<lfloor>r\<rfloor> + 1)"

definition round_double :: "rat \<Rightarrow> rat" where
  "round_double x =
     (if x = 0 then 0 else sgn x * (of_int (round_half_even (\<bar>x\<bar> / ulp x)) * ulp x))"

text \<open>
  The range error of \<^verbatim>\<open>strtod\<close> at the small end, as the GNU C library on x86-64 sets
  it (ISO C leaves it to the implementation): the value is not zero, it is still below
  \<open>2^-1022\<close> when rounded to 53 bits, and rounding it to a \<^verbatim>\<open>double\<close> is not exact.
\<close>

definition underflows :: "rat \<Rightarrow> bool" where
  "underflows v = (v \<noteq> 0 \<and> \<bar>v\<bar> * 2 ^ 1076 < 2 ^ 54 - 1 \<and> round_double v \<noteq> v)"

text \<open>
  \<^verbatim>\<open>is >> balance\<close> for a \<^verbatim>\<open>double\<close>, after the stream's sentry has skipped white space:
  \<^verbatim>\<open>num_get\<close> of the GNU C++ library in the "C" locale. It accumulates an optional sign,
  digits, at most one decimal point, and after a digit at most one \<^verbatim>\<open>e\<close> or \<^verbatim>\<open>E\<close> with an
  optional sign and digits; it stops in front of the first character that does not fit.
  The accumulated text is then converted as a whole: the conversion fails (\<^verbatim>\<open>failbit\<close>)
  when the text has no digit in its significand, has an exponent marker without exponent
  digits, or overflows; a value too small for a \<^verbatim>\<open>double\<close> is no failure here, it is
  rounded like any other. The result is the value, if any, and the input left over.
\<close>

definition float_value :: "bool \<Rightarrow> string \<Rightarrow> string \<Rightarrow> bool \<Rightarrow> string \<Rightarrow> rat" where
  "float_value neg ip fp eneg ep =
     signed neg (scale10 (of_nat (digits_val (ip @ fp)) / 10 ^ length fp) eneg (digits_val ep))"

text \<open>
  The stages of the scan, in the order of the library's code. \<open>neg\<close> is the sign read,
  \<open>ip\<close> and \<open>fp\<close> the digits before and after the decimal point, \<open>sci\<close> whether an
  exponent marker was accumulated, \<open>eneg\<close> and \<open>ep\<close> the exponent's sign and digits.
\<close>

definition scan_float_convert ::
  "bool \<Rightarrow> string \<Rightarrow> string \<Rightarrow> bool \<Rightarrow> bool \<Rightarrow> string \<Rightarrow> string \<Rightarrow> rat option \<times> string" where
  "scan_float_convert neg ip fp sci eneg ep rest =
     (if (ip \<noteq> [] \<or> fp \<noteq> []) \<and> (if sci then ep \<noteq> [] else True) \<and> \<not> overflows (float_value neg ip fp eneg ep)
      then (Some (round_double (float_value neg ip fp eneg ep)), rest)
      else (None, rest))"

definition scan_float_exponent :: "bool \<Rightarrow> string \<Rightarrow> string \<Rightarrow> string \<Rightarrow> rat option \<times> string" where
  "scan_float_exponent neg ip fp s =
     (if s \<noteq> [] \<and> (hd s = CHR ''e'' \<or> hd s = CHR ''E'') \<and> (ip \<noteq> [] \<or> fp \<noteq> [])
      then scan_float_convert neg ip fp True (fst (take_sign (tl s)))
             (takeWhile isdigit (snd (take_sign (tl s))))
             (dropWhile isdigit (snd (take_sign (tl s))))
      else scan_float_convert neg ip fp False False [] s)"

definition scan_float_point :: "bool \<Rightarrow> string \<Rightarrow> string \<Rightarrow> rat option \<times> string" where
  "scan_float_point neg ip s =
     (if s \<noteq> [] \<and> hd s = CHR ''.''
      then scan_float_exponent neg ip (takeWhile isdigit (tl s)) (dropWhile isdigit (tl s))
      else scan_float_exponent neg ip [] s)"

definition scan_float_digits :: "bool \<Rightarrow> string \<Rightarrow> rat option \<times> string" where
  "scan_float_digits neg s = scan_float_point neg (takeWhile isdigit s) (dropWhile isdigit s)"

definition scan_float :: "string \<Rightarrow> rat option \<times> string" where
  "scan_float s = scan_float_digits (fst (take_sign s)) (snd (take_sign s))"

definition extract_double :: "istream \<Rightarrow> rat option \<times> istream" where
  "extract_double is =
     (case is of
        NotGood \<Rightarrow> (None, NotGood)
      | Good buf \<Rightarrow>
          (let s = dropWhile isspace buf in
           if s = [] then (None, NotGood)
           else (case scan_float s of
                   (None, rest) \<Rightarrow> (None, NotGood)
                 | (Some v, rest) \<Rightarrow> (Some v, if rest = [] then NotGood else Good rest))))"

text \<open>
  The exceptions of \<^verbatim>\<open>std::stod\<close> and \<^verbatim>\<open>std::stoi\<close>.
\<close>

datatype exn = invalid_argument | out_of_range

text \<open>
  \<^verbatim>\<open>std::stod\<close> is \<^verbatim>\<open>strtod\<close>: white space, an optional sign, then \<^verbatim>\<open>inf\<close> or \<^verbatim>\<open>nan\<close> in
  any case, a hexadecimal or a decimal floating constant; what follows the longest such
  prefix is ignored. An exponent marker counts only when exponent digits follow it.
  No conversion raises \<^verbatim>\<open>invalid_argument\<close>; a range error of \<^verbatim>\<open>strtod\<close>, at the large
  or at the small end, raises \<^verbatim>\<open>out_of_range\<close>.
\<close>

definition exponent_part :: "char \<Rightarrow> string \<Rightarrow> bool \<times> nat" where
  "exponent_part marker s =
     (if s \<noteq> [] \<and> tolower (hd s) = marker
         \<and> takeWhile isdigit (snd (take_sign (tl s))) \<noteq> []
      then (fst (take_sign (tl s)), digits_val (takeWhile isdigit (snd (take_sign (tl s)))))
      else (False, 0))"

definition strtod_hex :: "string \<Rightarrow> rat option" where
  "strtod_hex s =
     (let ip = takeWhile isxdigit s;
          s2 = dropWhile isxdigit s;
          dot = (s2 \<noteq> [] \<and> hd s2 = CHR ''.'');
          fp = (if dot then takeWhile isxdigit (tl s2) else []);
          s3 = (if dot then dropWhile isxdigit (tl s2) else s2);
          (eneg, e) = exponent_part (CHR ''p'') s3
      in if ip = [] \<and> fp = [] then None
         else Some (scale2 (of_nat (xdigits_val (ip @ fp)) / 16 ^ length fp) eneg e))"

definition strtod_dec :: "string \<Rightarrow> rat option" where
  "strtod_dec s =
     (let ip = takeWhile isdigit s;
          s2 = dropWhile isdigit s;
          dot = (s2 \<noteq> [] \<and> hd s2 = CHR ''.'');
          fp = (if dot then takeWhile isdigit (tl s2) else []);
          s3 = (if dot then dropWhile isdigit (tl s2) else s2);
          (eneg, e) = exponent_part (CHR ''e'') s3
      in if ip = [] \<and> fp = [] then None
         else Some (scale10 (of_nat (digits_val (ip @ fp)) / 10 ^ length fp) eneg e))"

definition finite_double :: "bool \<Rightarrow> rat \<Rightarrow> exn + double" where
  "finite_double neg v =
     (if overflows v \<or> underflows v then Inl out_of_range
      else Inr (Finite (signed neg (round_double v))))"

definition stod :: "string \<Rightarrow> exn + double" where
  "stod str =
     (let (neg, s) = take_sign (dropWhile isspace str) in
      if map tolower (take 3 s) = ''inf'' then Inr (if neg then NInf else PInf)
      else if map tolower (take 3 s) = ''nan'' then Inr NaN
      else if map tolower (take 2 s) = ''0x'' \<and> strtod_hex (drop 2 s) \<noteq> None
        then finite_double neg (the (strtod_hex (drop 2 s)))
      else (case strtod_dec s of
              None \<Rightarrow> Inl invalid_argument
            | Some v \<Rightarrow> finite_double neg v))"

text \<open>
  \<^verbatim>\<open>std::stoi\<close> is \<^verbatim>\<open>strtol\<close> in base 10: white space, an optional sign, digits; what
  follows is ignored. No digit raises \<^verbatim>\<open>invalid_argument\<close>, a value that does not fit
  a 32-bit \<^verbatim>\<open>int\<close> raises \<^verbatim>\<open>out_of_range\<close>.
\<close>

definition stoi :: "string \<Rightarrow> exn + int" where
  "stoi str =
     (let (neg, s) = take_sign (dropWhile isspace str);
          ds = takeWhile isdigit s;
          v = (if neg then - int (digits_val ds) else int (digits_val ds))
      in if ds = [] then Inl invalid_argument
         else if v < - (2 ^ 31) \<or> 2 ^ 31 \<le> v then Inl out_of_range
         else Inr v)"

section \<open>The configuration manager\<close>

record SystemConfig =
  tollRates :: "string \<rightharpoonup> double"
  cameraResolutionWidth :: int
  cameraResolutionHeight :: int
  cameraFPS :: int

text \<open>
  A member function of \<^verbatim>\<open>ConfigManager\<close> works on the member \<^verbatim>\<open>config\<close>. It returns
  normally with the new \<^verbatim>\<open>config\<close> (\<open>Inr\<close>), or an exception leaves it, with
  \<^verbatim>\<open>config\<close> as it is at the throw (\<open>Inl\<close>).
\<close>

type_synonym config_result = "(exn \<times> SystemConfig) + SystemConfig"

text \<open>
  \<^verbatim>\<open>config.tollRates[k] = std::stod(value)\<close> and \<^verbatim>\<open>config.field = std::stoi(value)\<close>.
  The program needs C++17, where the right operand of an assignment is evaluated first:
  when the conversion throws, the map has not been touched.
\<close>

definition set_tollRate :: "string \<Rightarrow> string \<Rightarrow> SystemConfig \<Rightarrow> config_result" where
  "set_tollRate k val config =
     (case stod val of
        Inl e \<Rightarrow> Inl (e, config)
      | Inr d \<Rightarrow> Inr (config\<lparr>tollRates := (tollRates config)(k \<mapsto> d)\<rparr>))"

definition set_cameraResolutionWidth :: "string \<Rightarrow> SystemConfig \<Rightarrow> config_result" where
  "set_cameraResolutionWidth val config =
     (case stoi val of
        Inl e \<Rightarrow> Inl (e, config)
      | Inr n \<Rightarrow> Inr (config\<lparr>cameraResolutionWidth := n\<rparr>))"

definition set_cameraResolutionHeight :: "string \<Rightarrow> SystemConfig \<Rightarrow> config_result" where
  "set_cameraResolutionHeight val config =
     (case stoi val of
        Inl e \<Rightarrow> Inl (e, config)
      | Inr n \<Rightarrow> Inr (config\<lparr>cameraResolutionHeight := n\<rparr>))"

definition set_cameraFPS :: "string \<Rightarrow> SystemConfig \<Rightarrow> config_result" where
  "set_cameraFPS val config =
     (case stoi val of
        Inl e \<Rightarrow> Inl (e, config)
      | Inr n \<Rightarrow> Inr (config\<lparr>cameraFPS := n\<rparr>))"

text \<open>The body of the loop of \<^verbatim>\<open>loadConfig\<close>, for one line of the file.\<close>

definition loadConfig_line :: "string \<Rightarrow> SystemConfig \<Rightarrow> config_result" where
  "loadConfig_line line config =
     (if line = [] \<or> hd line = CHR ''#'' then Inr config
      else
        (case getline (Good line) (CHR ''='') of
           (None, iss) \<Rightarrow> Inr config
         | (Some key, iss) \<Rightarrow>
             (case getline iss (CHR ''\<newline>'') of
                (None, iss') \<Rightarrow> Inr config
              | (Some val, iss') \<Rightarrow>
                  if key = ''toll_rate_car'' then set_tollRate ''car'' val config
                  else if key = ''toll_rate_truck'' then set_tollRate ''truck'' val config
                  else if key = ''toll_rate_bus'' then set_tollRate ''bus'' val config
                  else if key = ''camera_resolution_width'' then set_cameraResolutionWidth val config
                  else if key = ''camera_resolution_height'' then set_cameraResolutionHeight val config
                  else if key = ''camera_fps'' then set_cameraFPS val config
                  else Inr config)))"

function loadConfig_loop :: "istream \<Rightarrow> SystemConfig \<Rightarrow> config_result" where
  "loadConfig_loop configFile config =
     (case getline configFile (CHR ''\<newline>'') of
        (None, configFile') \<Rightarrow> Inr config
      | (Some line, configFile') \<Rightarrow>
          (case loadConfig_line line config of
             Inl thrown \<Rightarrow> Inl thrown
           | Inr config' \<Rightarrow> loadConfig_loop configFile' config'))"
  by pat_completeness auto
termination
  by (relation "measure (\<lambda>(configFile, config). pending configFile)")
     (auto intro: getline_pending [OF sym])

declare loadConfig_loop.simps [simp del]

text \<open>
  \<^verbatim>\<open>createDefaultConfig\<close> sends the default text to \<^verbatim>\<open>config.txt\<close> and sets the
  defaults in memory. It returns the text and the new \<^verbatim>\<open>config\<close>.
\<close>

definition default_config_text :: string where
  "default_config_text =
     ''# Toll Rates\<newline>'' @
     ''toll_rate_car=50.0\<newline>'' @
     ''toll_rate_truck=100.0\<newline>'' @
     ''toll_rate_bus=75.0\<newline>\<newline>'' @
     ''# Camera Settings\<newline>'' @
     ''camera_resolution_width=1920\<newline>'' @
     ''camera_resolution_height=1080\<newline>'' @
     ''camera_fps=30\<newline>''"

definition createDefaultConfig :: "SystemConfig \<Rightarrow> string \<times> SystemConfig" where
  "createDefaultConfig config =
     (default_config_text,
      config\<lparr>tollRates := (tollRates config)
                 (''car'' \<mapsto> Finite 50, ''truck'' \<mapsto> Finite 100, ''bus'' \<mapsto> Finite 75),
             cameraResolutionWidth := 1920,
             cameraResolutionHeight := 1080,
             cameraFPS := 30\<rparr>)"

text \<open>
  \<^verbatim>\<open>loadConfig\<close>. The file \<^verbatim>\<open>config.txt\<close> is \<open>None\<close> when it cannot be opened, and
  its content otherwise. The result is the text written to \<^verbatim>\<open>config.txt\<close>, if any, and
  the outcome for \<^verbatim>\<open>config\<close>.
\<close>

definition loadConfig :: "string option \<Rightarrow> SystemConfig \<Rightarrow> string option \<times> config_result" where
  "loadConfig file config =
     (case file of
        None \<Rightarrow> (Some (fst (createDefaultConfig config)), Inr (snd (createDefaultConfig config)))
      | Some content \<Rightarrow> (None, loadConfig_loop (Good content) config))"

text \<open>
  The constructor of \<^verbatim>\<open>ConfigManager\<close> runs \<^verbatim>\<open>loadConfig\<close> on a default-initialised
  \<^verbatim>\<open>config\<close>: an empty rate table, and three integers of indeterminate value.
\<close>

definition ConfigManager :: "int \<Rightarrow> int \<Rightarrow> int \<Rightarrow> string option \<Rightarrow> string option \<times> config_result" where
  "ConfigManager w h f file =
     loadConfig file \<lparr>tollRates = Map.empty, cameraResolutionWidth = w,
                      cameraResolutionHeight = h, cameraFPS = f\<rparr>"

section \<open>The logger\<close>

text \<open>
  \<^verbatim>\<open>std::ctime\<close> of the current time is \<^verbatim>\<open>asctime\<close> of the local broken-down time,
  which the clock supplies here. \<^verbatim>\<open>asctime\<close> is
  \<^verbatim>\<open>sprintf("%.3s %.3s%3d %.2d:%.2d:%.2d %d\n", ...)\<close> (ISO C, 7.27.3.1).
\<close>

record tm =
  tm_sec :: nat
  tm_min :: nat
  tm_hour :: nat
  tm_mday :: nat
  tm_mon :: nat
  tm_year :: nat
  tm_wday :: nat

fun show_nat :: "nat \<Rightarrow> string" where
  "show_nat n =
     (if n < 10 then [''0123456789'' ! n] else show_nat (n div 10) @ [''0123456789'' ! (n mod 10)])"

declare show_nat.simps [simp del]

definition pad :: "char \<Rightarrow> nat \<Rightarrow> string \<Rightarrow> string" where
  "pad c w s = replicate (w - length s) c @ s"

definition wday_name :: "nat \<Rightarrow> string" where
  "wday_name d =
     (if d < 7 then [''Sun'', ''Mon'', ''Tue'', ''Wed'', ''Thu'', ''Fri'', ''Sat''] ! d else ''???'')"

definition mon_name :: "nat \<Rightarrow> string" where
  "mon_name m =
     (if m < 12 then [''Jan'', ''Feb'', ''Mar'', ''Apr'', ''May'', ''Jun'',
                      ''Jul'', ''Aug'', ''Sep'', ''Oct'', ''Nov'', ''Dec''] ! m else ''???'')"

definition asctime :: "tm \<Rightarrow> string" where
  "asctime t =
     wday_name (tm_wday t) @ '' '' @ mon_name (tm_mon t) @
     pad (CHR '' '') 3 (show_nat (tm_mday t)) @ '' '' @
     pad (CHR ''0'') 2 (show_nat (tm_hour t)) @ '':'' @
     pad (CHR ''0'') 2 (show_nat (tm_min t)) @ '':'' @
     pad (CHR ''0'') 2 (show_nat (tm_sec t)) @ '' '' @
     show_nat (1900 + tm_year t) @ ''\<newline>''"

text \<open>
  The two log files, opened for appending, as the text they hold. The streams are taken
  to be open (the program does not check). \<^verbatim>\<open>logTransaction\<close> and \<^verbatim>\<open>logError\<close> read
  the clock: \<open>now\<close>. \<open>put_double\<close> stands for \<^verbatim>\<open>operator<<\<close> on a \<^verbatim>\<open>double\<close>
  (\<^verbatim>\<open>printf\<close>'s \<^verbatim>\<open>%g\<close>), whose rounding to six digits is not modelled.
\<close>

record Logger =
  transactionLog :: string
  errorLog :: string

definition logTransaction ::
  "(double \<Rightarrow> string) \<Rightarrow> tm \<Rightarrow> string \<Rightarrow> string \<Rightarrow> double \<Rightarrow> double \<Rightarrow> Logger \<Rightarrow> Logger" where
  "logTransaction put_double now vehicleId paymentMethod amount balanceRemaining lg =
     lg\<lparr>transactionLog := transactionLog lg @
          asctime now @ '','' @
          vehicleId @ '','' @
          paymentMethod @ '','' @
          put_double amount @ '','' @
          put_double balanceRemaining @ ''\<newline>''\<rparr>"

definition logError :: "tm \<Rightarrow> string \<Rightarrow> Logger \<Rightarrow> Logger" where
  "logError now error lg =
     lg\<lparr>errorLog := errorLog lg @ asctime now @ '': '' @ error @ ''\<newline>''\<rparr>"

section \<open>The vehicle registry\<close>

text \<open>
  Modelled from the spec: the class \<^verbatim>\<open>Vehicle\<close> is not in the source, which only says
  that it "remains the same" (line 161) and constructs it from the four columns of a row:
  \<^verbatim>\<open>Vehicle vehicle(plate, rfid, balance, type)\<close>. The spec gives it the plate, the RFID
  tag, a balance and a class among car, truck, bus and unknown, where an unrecognised
  type is the unknown class. A balance read from a row is always finite.
\<close>

datatype VehicleClass = Car | Truck | Bus | Unknown

record Vehicle =
  plate :: string
  rfidTag :: string
  balance :: rat
  vehicleClass :: VehicleClass

definition class_of_type :: "string \<Rightarrow> VehicleClass" where
  "class_of_type type_col =
     (if type_col = ''car'' then Car else if type_col = ''truck'' then Truck
      else if type_col = ''bus'' then Bus else Unknown)"

definition new_Vehicle :: "string \<Rightarrow> string \<Rightarrow> rat \<Rightarrow> string \<Rightarrow> Vehicle" where
  "new_Vehicle plate_col rfid_col balance_col type_col =
     \<lparr>plate = plate_col, rfidTag = rfid_col, balance = balance_col,
      vehicleClass = class_of_type type_col\<rparr>"

record TollSystem =
  logger :: Logger
  configManager :: SystemConfig
  registeredVehicles :: "string \<rightharpoonup> Vehicle"

text \<open>
  The condition of the \<^verbatim>\<open>if\<close> in the loop of \<^verbatim>\<open>loadRegisteredVehicles\<close>: the four
  extractions from the line, left to right, stopping at the first that fails. It gives
  the key and the vehicle to store. The source's variables \<^verbatim>\<open>plate\<close>, \<^verbatim>\<open>rfid\<close>,
  \<^verbatim>\<open>balance\<close> and \<^verbatim>\<open>type\<close> are \<open>plate_col\<close>, \<open>rfid_col\<close>, \<open>balance_col\<close> and
  \<open>type_col\<close> here.
\<close>

definition read_row :: "string \<Rightarrow> (string \<times> Vehicle) option" where
  "read_row line =
     (case getline (Good line) (CHR '','') of
        (None, iss1) \<Rightarrow> None
      | (Some plate_col, iss1) \<Rightarrow>
          (case getline iss1 (CHR '','') of
             (None, iss2) \<Rightarrow> None
           | (Some rfid_col, iss2) \<Rightarrow>
               (case extract_double iss2 of
                  (None, iss3) \<Rightarrow> None
                | (Some balance_col, iss3) \<Rightarrow>
                    (case getline iss3 (CHR '','') of
                       (None, iss4) \<Rightarrow> None
                     | (Some type_col, iss4) \<Rightarrow>
                         Some (rfid_col, new_Vehicle plate_col rfid_col balance_col type_col)))))"

definition store_row :: "string \<Rightarrow> (string \<rightharpoonup> Vehicle) \<Rightarrow> (string \<rightharpoonup> Vehicle)" where
  "store_row line vehicles =
     (case read_row line of
        None \<Rightarrow> vehicles
      | Some (rfid, vehicle) \<Rightarrow> vehicles(rfid \<mapsto> vehicle))"

function loadRegisteredVehicles_loop :: "istream \<Rightarrow> (string \<rightharpoonup> Vehicle) \<Rightarrow> (string \<rightharpoonup> Vehicle)" where
  "loadRegisteredVehicles_loop vehicleFile vehicles =
     (case getline vehicleFile (CHR ''\<newline>'') of
        (None, vehicleFile') \<Rightarrow> vehicles
      | (Some line, vehicleFile') \<Rightarrow>
          loadRegisteredVehicles_loop vehicleFile' (store_row line vehicles))"
  by pat_completeness auto
termination
  by (relation "measure (\<lambda>(vehicleFile, vehicles). pending vehicleFile)")
     (auto intro: getline_pending [OF sym])

declare loadRegisteredVehicles_loop.simps [simp del]

text \<open>
  \<^verbatim>\<open>loadRegisteredVehicles\<close>. The file \<^verbatim>\<open>registered_vehicles.csv\<close> is \<open>None\<close> when it
  cannot be opened. The first \<^verbatim>\<open>getline\<close> skips the header, whatever it reads.
\<close>

definition loadRegisteredVehicles :: "tm \<Rightarrow> string option \<Rightarrow> TollSystem \<Rightarrow> TollSystem" where
  "loadRegisteredVehicles now file ts =
     (case file of
        None \<Rightarrow> ts\<lparr>logger := logError now ''Could not open registered vehicles file'' (logger ts)\<rparr>
      | Some content \<Rightarrow>
          ts\<lparr>registeredVehicles :=
               loadRegisteredVehicles_loop (snd (getline (Good content) (CHR ''\<newline>'')))
                 (registeredVehicles ts)\<rparr>)"

text \<open>
  The constructor of \<^verbatim>\<open>TollSystem\<close>, once the logger and the configuration manager are
  built: the registry starts empty and is loaded.
\<close>

definition new_TollSystem :: "tm \<Rightarrow> Logger \<Rightarrow> SystemConfig \<Rightarrow> string option \<Rightarrow> TollSystem" where
  "new_TollSystem now lg config file =
     loadRegisteredVehicles now file
       \<lparr>logger = lg, configManager = config, registeredVehicles = Map.empty\<rparr>"

section \<open>The registry operations and the transaction processor\<close>

text \<open>
  The source stops at \<^verbatim>\<open>processVehicleByCamera\<close>, which hands the recognised plate to a
  \<^verbatim>\<open>processVehicleByANPR\<close> it does not define ("Rest of the TollSystem methods remain
  similar", line 228): looking a vehicle up, charging it and recording the outcome are
  not in the source. This section follows the spec (4.2, 4.3 and the data model of 3).
\<close>

text \<open>
  Modelled from the spec: the registry, which the source lacks beyond the map filled by
  the load. Vehicles are keyed by rfid, "with plate retained as a secondary lookup key":
  \<open>by_plate\<close> gives the rfid key of a plate.
\<close>

record Registry =
  by_rfid :: "string \<rightharpoonup> Vehicle"
  by_plate :: "string \<rightharpoonup> string"

text \<open>
  Modelled from the spec: \<^verbatim>\<open>lookup(identifier) -> Vehicle?\<close>, missing from the source,
  "tries RFID key first, then plate key".
\<close>

definition lookup :: "Registry \<Rightarrow> string \<Rightarrow> Vehicle option" where
  "lookup reg ident =
     (case by_rfid reg ident of
        Some vehicle \<Rightarrow> Some vehicle
      | None \<Rightarrow>
          (case by_plate reg ident of
             None \<Rightarrow> None
           | Some key \<Rightarrow> by_rfid reg key))"

text \<open>
  Modelled from the spec: \<^verbatim>\<open>charge(vehicle, amount) -> Result<newBalance, InsufficientFunds>\<close>,
  missing from the source, "decreases balance by amount only if balance >= amount;
  otherwise returns a typed insufficient-funds failure without mutating state". The
  result is the failure, or the new balance with the registry after the charge.
\<close>

datatype charge_failure = InsufficientFunds

definition charge :: "Registry \<Rightarrow> Vehicle \<Rightarrow> rat \<Rightarrow> charge_failure + rat \<times> Registry" where
  "charge reg vehicle amount =
     (if balance vehicle \<ge> amount
      then Inr (balance vehicle - amount,
                reg\<lparr>by_rfid := (by_rfid reg)
                      (rfidTag vehicle \<mapsto> vehicle\<lparr>balance := balance vehicle - amount\<rparr>)\<rparr>)
      else Inl InsufficientFunds)"

text \<open>
  Modelled from the spec: the rate table, missing from the source as a lookup (the
  source only loads the rates): a rate for a class, and for a class without one "a
  documented fallback rate rather than aborting".
\<close>

record TollRateTable =
  class_rate :: "VehicleClass \<rightharpoonup> rat"
  fallback_rate :: rat

definition resolve_rate :: "TollRateTable \<Rightarrow> VehicleClass \<Rightarrow> rat" where
  "resolve_rate table cls = (case class_rate table cls of Some rate \<Rightarrow> rate | None \<Rightarrow> fallback_rate table)"

text \<open>
  Modelled from the spec: the records of the ledger and of the error log (spec 3), and
  the result returned to the caller (spec 6); the source has no type for them.
\<close>

datatype PaymentMethod = Rfid | AnprBilling

record TransactionRecord =
  timestamp :: tm
  vehicleIdentifier :: string
  paymentMethod :: PaymentMethod
  amountCharged :: rat
  balanceRemaining :: rat

record ErrorRecord =
  error_timestamp :: tm
  message :: string

datatype TransactionResult = Accepted rat | RejectedUnregistered | RejectedInsufficientFunds

record Processor =
  registry :: Registry
  ledger :: "TransactionRecord list"
  error_log :: "ErrorRecord list"

text \<open>
  Modelled from the spec: the transaction processor (spec 4.3), missing from the source.
  Lookup; "if no match, transition to Logged(Failure) with reason unregistered vehicle
  and terminate"; else resolve the rate and charge; on success "exactly one
  TransactionRecord", on insufficient funds one error record with reason "insufficient
  balance" and "no balance mutation". The message of an error record is the reason and
  the identifier.
\<close>

definition process_transaction ::
  "TollRateTable \<Rightarrow> tm \<Rightarrow> PaymentMethod \<Rightarrow> string \<Rightarrow> Processor \<Rightarrow> TransactionResult \<times> Processor" where
  "process_transaction table now method ident st =
     (case lookup (registry st) ident of
        None \<Rightarrow>
          (RejectedUnregistered,
           st\<lparr>error_log := error_log st @
                [\<lparr>error_timestamp = now, message = ''unregistered vehicle: '' @ ident\<rparr>]\<rparr>)
      | Some vehicle \<Rightarrow>
          (case charge (registry st) vehicle (resolve_rate table (vehicleClass vehicle)) of
             Inl failure \<Rightarrow>
               (RejectedInsufficientFunds,
                st\<lparr>error_log := error_log st @
                     [\<lparr>error_timestamp = now, message = ''insufficient balance: '' @ ident\<rparr>]\<rparr>)
           | Inr (new_balance, reg') \<Rightarrow>
               (Accepted new_balance,
                st\<lparr>registry := reg',
                   ledger := ledger st @
                     [\<lparr>timestamp = now, vehicleIdentifier = ident, paymentMethod = method,
                       amountCharged = resolve_rate table (vehicleClass vehicle),
                       balanceRemaining = new_balance\<rparr>]\<rparr>)))"

text \<open>
  The registry and the rate table of the spec's scenarios A to D: one car, \<^verbatim>\<open>RF1\<close>, with
  plate \<^verbatim>\<open>ABC123\<close> and balance 100, and a car rate of 50.
\<close>

definition scenario_registry :: "rat \<Rightarrow> Registry" where
  "scenario_registry b =
     \<lparr>by_rfid = [''RF1'' \<mapsto> \<lparr>plate = ''ABC123'', rfidTag = ''RF1'', balance = b, vehicleClass = Car\<rparr>],
      by_plate = [''ABC123'' \<mapsto> ''RF1'']\<rparr>"

definition scenario_table :: TollRateTable where
  "scenario_table = \<lparr>class_rate = [Car \<mapsto> 50], fallback_rate = 50\<rparr>"

section \<open>Notions used in the statements\<close>

text \<open>
  The loop of \<^verbatim>\<open>loadConfig\<close> over the lines already split: the first line whose
  conversion throws ends it.
\<close>

fun loadConfig_lines :: "string list \<Rightarrow> SystemConfig \<Rightarrow> config_result" where
  "loadConfig_lines [] config = Inr config"
| "loadConfig_lines (line # lines) config =
     (case loadConfig_line line config of
        Inl thrown \<Rightarrow> Inl thrown
      | Inr config' \<Rightarrow> loadConfig_lines lines config')"

text \<open>
  The rows of a registry file that the load stores, in file order, each with its key:
  the lines after the first on which the four extractions succeed.
\<close>

definition accepted_rows :: "string \<Rightarrow> (string \<times> Vehicle) list" where
  "accepted_rows content = List.map_filter read_row (tl (stream_lines (Good content)))"

text \<open>
  A clock reading (Tuesday 3 November 2026, 09:19:05), empty logs and a zeroed
  configuration, for the concrete instances below.
\<close>

definition clock0 :: tm where
  "clock0 = \<lparr>tm_sec = 5, tm_min = 19, tm_hour = 9, tm_mday = 3, tm_mon = 10, tm_year = 126, tm_wday = 2\<rparr>"

definition logger0 :: Logger where
  "logger0 = \<lparr>transactionLog = [], errorLog = []\<rparr>"

definition config0 :: SystemConfig where
  "config0 = \<lparr>tollRates = Map.empty, cameraResolutionWidth = 0, cameraResolutionHeight = 0, cameraFPS = 0\<rparr>"

text \<open>
  A value that the conversion for its key rejects: \<^verbatim>\<open>std::stod\<close> for the three rates,
  \<^verbatim>\<open>std::stoi\<close> for the three camera settings.
\<close>

definition malformed_value :: "string \<Rightarrow> string \<Rightarrow> bool" where
  "malformed_value key val =
     (if key = ''toll_rate_car'' \<or> key = ''toll_rate_truck'' \<or> key = ''toll_rate_bus''
      then isl (stod val)
      else if key = ''camera_resolution_width'' \<or> key = ''camera_resolution_height'' \<or> key = ''camera_fps''
      then isl (stoi val)
      else False)"

text \<open>
  Two runs of the loop of \<^verbatim>\<open>loadConfig\<close>, started on \<open>c\<close> and on \<open>d\<close> and now at
  \<open>c'\<close> and \<open>d'\<close>: on every setting they agree, or neither has assigned it.
\<close>

definition agree :: "SystemConfig \<Rightarrow> SystemConfig \<Rightarrow> SystemConfig \<Rightarrow> SystemConfig \<Rightarrow> bool" where
  "agree c d c' d' =
     ((\<forall>k. tollRates c' k = tollRates d' k \<or> (tollRates c' k = tollRates c k \<and> tollRates d' k = tollRates d k)) \<and>
      (cameraResolutionWidth c' = cameraResolutionWidth d' \<or>
         (cameraResolutionWidth c' = cameraResolutionWidth c \<and> cameraResolutionWidth d' = cameraResolutionWidth d)) \<and>
      (cameraResolutionHeight c' = cameraResolutionHeight d' \<or>
         (cameraResolutionHeight c' = cameraResolutionHeight c \<and> cameraResolutionHeight d' = cameraResolutionHeight d)) \<and>
      (cameraFPS c' = cameraFPS d' \<or> (cameraFPS c' = cameraFPS c \<and> cameraFPS d' = cameraFPS d)))"

text \<open>
  A configuration file assigns a key when one of its lines is the key, \<^verbatim>\<open>=\<close> and a
  value that is not empty.
\<close>

definition assigns :: "string \<Rightarrow> string \<Rightarrow> bool" where
  "assigns source key =
     list_ex (\<lambda>line. take (Suc (length key)) line = key @ ''='' \<and> Suc (length key) < length line)
       (stream_lines (Good source))"

text \<open>
  The shape of a row of the registry file, as the spec words it. The fields of a row are
  the texts between its commas. A decimal is an optional sign, one to 308 digits and, if
  any, a point followed by at least one digit (so its value is within the range of a
  \<^verbatim>\<open>double\<close>); \<open>decimal_value\<close> is the number it denotes.
\<close>

fun fields :: "string \<Rightarrow> string list" where
  "fields [] = [[]]"
| "fields (c # s) =
     (if c = CHR '','' then [] # fields s
      else (case fields s of [] \<Rightarrow> [[c]] | f # fs \<Rightarrow> (c # f) # fs))"

definition decimal_digits :: "string \<Rightarrow> bool" where
  "decimal_digits u =
     (takeWhile isdigit u \<noteq> [] \<and> length (takeWhile isdigit u) \<le> 308 \<and>
      (case dropWhile isdigit u of
         [] \<Rightarrow> True
       | c # fp \<Rightarrow> c = CHR ''.'' \<and> fp \<noteq> [] \<and> list_all isdigit fp))"

definition is_decimal :: "string \<Rightarrow> bool" where
  "is_decimal s = decimal_digits (snd (take_sign s))"

definition decimal_value :: "string \<Rightarrow> rat" where
  "decimal_value s =
     signed (fst (take_sign s))
       (of_nat (digits_val (filter isdigit (snd (take_sign s)))) /
          10 ^ length (drop 1 (dropWhile isdigit (snd (take_sign s)))))"

text \<open>
  A text starts with a number when, after white space and an optional sign, a digit
  comes, or a point and a digit.
\<close>

definition has_mantissa :: "string \<Rightarrow> bool" where
  "has_mantissa s =
     (case snd (take_sign s) of
        [] \<Rightarrow> False
      | c # t \<Rightarrow> isdigit c \<or> (c = CHR ''.'' \<and> t \<noteq> [] \<and> isdigit (hd t)))"

definition starts_number :: "string \<Rightarrow> bool" where
  "starts_number s = has_mantissa (dropWhile isspace s)"

text \<open>
  A well-formed row is \<^verbatim>\<open>plate,rfid,balance,type\<close>: four fields, the third a decimal.
  A malformed row lacks a field or has a non-numeric balance: it has fewer than three
  fields; or its third field does not start with a number; or it has three fields only,
  the third a decimal (the type is missing). A row whose third field is a number
  followed by other text is neither.
\<close>

definition well_formed_row :: "string \<Rightarrow> bool" where
  "well_formed_row row = (length (fields row) = 4 \<and> is_decimal (fields row ! 2))"

definition malformed_row :: "string \<Rightarrow> bool" where
  "malformed_row row =
     (length (fields row) < 3 \<or>
      (if starts_number (fields row ! 2) then length (fields row) = 3 \<and> is_decimal (fields row ! 2)
       else True))"

definition row_rfid :: "string \<Rightarrow> string" where
  "row_rfid row = fields row ! 1"

text \<open>What may follow the balance in the input: nothing, or the comma in front of the type.\<close>

definition stops :: "string \<Rightarrow> bool" where
  "stops tail = (tail = [] \<or> hd tail = CHR '','')"

section \<open>Lines and loops\<close>

lemma getline_NotGood_snd: "getline is d = (None, is') \<Longrightarrow> is' = NotGood"
  by (cases "is") (auto split: list.splits if_splits)

lemma stream_lines_NotGood [simp]: "stream_lines NotGood = []"
  by (simp add: stream_lines.simps)

lemma stream_lines_Nil [simp]: "stream_lines (Good []) = []"
  by (simp add: stream_lines.simps)

lemma stream_lines_step:
  "stream_lines (Good buf) =
     (if buf = [] then []
      else takeWhile (\<lambda>c. c \<noteq> CHR ''\<newline>'') buf #
           (case dropWhile (\<lambda>c. c \<noteq> CHR ''\<newline>'') buf of
              [] \<Rightarrow> []
            | d # rest \<Rightarrow> stream_lines (Good rest)))"
proof (cases "dropWhile (\<lambda>c. c \<noteq> CHR ''\<newline>'') buf")
  case Nil
  then have tk: "takeWhile (\<lambda>c. c \<noteq> CHR ''\<newline>'') buf = buf"
    by (metis takeWhile_dropWhile_id append_Nil2)
  show ?thesis
    by (subst stream_lines.simps) (simp add: Nil tk del: dropWhile_eq_Nil_conv)
next
  case (Cons d rest)
  then have "buf \<noteq> []"
    by auto
  with Cons show ?thesis
    by (subst stream_lines.simps) simp
qed

lemma takeWhile_until: "d \<notin> set first \<Longrightarrow> takeWhile (\<lambda>c. c \<noteq> d) (first @ d # rest) = first"
  by (induction first) auto

lemma dropWhile_until: "d \<notin> set first \<Longrightarrow> dropWhile (\<lambda>c. c \<noteq> d) (first @ d # rest) = d # rest"
  by (induction first) auto

lemma getline_delim:
  "d \<notin> set first \<Longrightarrow> getline (Good (first @ d # rest)) d = (Some first, Good rest)"
  by (simp add: takeWhile_until dropWhile_until)

lemma stream_lines_line:
  assumes "CHR ''\<newline>'' \<notin> set first"
  shows "stream_lines (Good (first @ CHR ''\<newline>'' # rest)) = first # stream_lines (Good rest)"
  by (subst stream_lines.simps) (simp only: getline_delim [OF assms] prod.case option.case)

lemma stream_lines_after_getline:
  "stream_lines (snd (getline is (CHR ''\<newline>''))) = tl (stream_lines is)"
proof (cases "getline is (CHR ''\<newline>'')")
  case (Pair r is')
  show ?thesis
  proof (cases r)
    case None
    with Pair have "is' = NotGood"
      by (auto dest: getline_NotGood_snd)
    with Pair None show ?thesis
      by (subst (2) stream_lines.simps) simp
  next
    case (Some line)
    with Pair show ?thesis
      by (subst (2) stream_lines.simps) simp
  qed
qed

lemma loadRegisteredVehicles_loop_fold:
  "loadRegisteredVehicles_loop is vehicles = fold store_row (stream_lines is) vehicles"
proof (induction "is" vehicles rule: loadRegisteredVehicles_loop.induct)
  case (1 vehicleFile vehicles)
  show ?case
  proof (cases "getline vehicleFile (CHR ''\<newline>'')")
    case (Pair r is')
    show ?thesis
    proof (cases r)
      case None
      with Pair show ?thesis
        by (subst loadRegisteredVehicles_loop.simps, subst stream_lines.simps) simp
    next
      case (Some line)
      with Pair 1 [of r is' line] show ?thesis
        by (subst loadRegisteredVehicles_loop.simps, subst stream_lines.simps) simp
    qed
  qed
qed

lemma loadConfig_loop_lines:
  "loadConfig_loop is config = loadConfig_lines (stream_lines is) config"
proof (induction "is" config rule: loadConfig_loop.induct)
  case (1 configFile config)
  show ?case
  proof (cases "getline configFile (CHR ''\<newline>'')")
    case (Pair r is')
    show ?thesis
    proof (cases r)
      case None
      with Pair show ?thesis
        by (subst loadConfig_loop.simps, subst stream_lines.simps) simp
    next
      case (Some line)
      show ?thesis
      proof (cases "loadConfig_line line config")
        case (Inl thrown)
        with Pair Some show ?thesis
          by (subst loadConfig_loop.simps, subst stream_lines.simps) simp
      next
        case (Inr config')
        with Pair Some 1 [of r is' line config'] show ?thesis
          by (subst loadConfig_loop.simps, subst stream_lines.simps) simp
      qed
    qed
  qed
qed

section \<open>The registry load\<close>

lemmas scan_defs = scan_float_def scan_float_digits_def scan_float_point_def scan_float_exponent_def
  scan_float_convert_def float_value_def isdigit_def digits_val_def digit_val_def overflows_def
  scale10_def signed_def isspace_def round_double_def ulp_def ilog2_def pow2_def
  round_half_even_def bit_length.simps

lemmas read_row_eval = read_row_def extract_double_def scan_defs

lemma fold_store_row:
  "fold store_row rows m = m ++ map_of (rev (List.map_filter read_row rows))"
proof (induction rows arbitrary: m)
  case Nil
  show ?case by simp
next
  case (Cons row rows)
  show ?case
  proof (cases "read_row row")
    case None
    then have "store_row row m = m"
      by (simp add: store_row_def)
    with None show ?thesis
      by (simp add: Cons)
  next
    case (Some kv)
    obtain k v where kv: "kv = (k, v)" by (cases kv)
    from Some kv have "store_row row m = m(k \<mapsto> v)"
      by (simp add: store_row_def)
    then have "fold store_row (row # rows) m = fold store_row rows (m(k \<mapsto> v))"
      by simp
    also have "\<dots> = m(k \<mapsto> v) ++ map_of (rev (List.map_filter read_row rows))"
      by (rule Cons)
    also have "\<dots> = m ++ map_of (rev (List.map_filter read_row (row # rows)))"
      using Some kv by simp
    finally show ?thesis .
  qed
qed

lemma registeredVehicles_loaded:
  "registeredVehicles (loadRegisteredVehicles now (Some content) ts) =
     registeredVehicles ts ++ map_of (rev (accepted_rows content))"
  by (simp add: loadRegisteredVehicles_def loadRegisteredVehicles_loop_fold
        stream_lines_after_getline fold_store_row accepted_rows_def del: getline.simps)

lemma registeredVehicles_new:
  "registeredVehicles (new_TollSystem now lg config (Some content)) = map_of (rev (accepted_rows content))"
  by (simp add: new_TollSystem_def registeredVehicles_loaded)

text \<open>
  Claim C10. When several accepted rows of a registry file carry the same rfid, the
  registry of the freshly constructed system holds for that rfid the vehicle of the last
  such row, and the registry has as many entries as there are distinct rfids among the
  accepted rows.
\<close>

theorem registry_last_row_wins:
  assumes "accepted_rows content = before @ (rfid, v) # after"
    and "rfid \<notin> fst ` set after"
  shows "registeredVehicles (new_TollSystem now lg config (Some content)) rfid = Some v \<and>
         card (dom (registeredVehicles (new_TollSystem now lg config (Some content)))) =
           card (fst ` set (accepted_rows content))"
proof -
  from assms(2) have "map_of (rev after) rfid = None"
    by (simp add: map_of_eq_None_iff)
  with assms(1) have "map_of (rev (accepted_rows content)) rfid = Some v"
    by (simp add: map_add_def)
  moreover have "dom (map_of (rev (accepted_rows content))) = fst ` set (accepted_rows content)"
    by (simp add: dom_map_of_conv_image_fst)
  ultimately show ?thesis
    by (simp add: registeredVehicles_new)
qed

lemma accepted_rows_duplicate:
  "accepted_rows ''plate,rfid,balance,type\<newline>ABC123,RF1,100.0,car\<newline>XYZ789,RF1,250.0,truck\<newline>'' =
     [(''RF1'', new_Vehicle ''ABC123'' ''RF1'' 100 ''''), (''RF1'', new_Vehicle ''XYZ789'' ''RF1'' 250 '''')]"
  by (simp add: accepted_rows_def stream_lines_step read_row_eval)

theorem registry_last_row_wins_witness:
  "registeredVehicles (new_TollSystem clock0 logger0 config0
      (Some ''plate,rfid,balance,type\<newline>ABC123,RF1,100.0,car\<newline>XYZ789,RF1,250.0,truck\<newline>'')) ''RF1'' =
     Some (new_Vehicle ''XYZ789'' ''RF1'' 250 '''') \<and>
   card (dom (registeredVehicles (new_TollSystem clock0 logger0 config0
      (Some ''plate,rfid,balance,type\<newline>ABC123,RF1,100.0,car\<newline>XYZ789,RF1,250.0,truck\<newline>'')))) = 1"
  using registry_last_row_wins [of
      "''plate,rfid,balance,type\<newline>ABC123,RF1,100.0,car\<newline>XYZ789,RF1,250.0,truck\<newline>''"
      "[(''RF1'', new_Vehicle ''ABC123'' ''RF1'' 100 '''')]" "''RF1''"
      "new_Vehicle ''XYZ789'' ''RF1'' 250 ''''" "[]" clock0 logger0 config0]
  by (simp add: accepted_rows_duplicate)

lemma getline_no_delim:
  "d \<notin> set buf \<Longrightarrow> getline (Good buf) d = (if buf = [] then None else Some buf, NotGood)"
proof -
  assume "d \<notin> set buf"
  then have "dropWhile (\<lambda>c. c \<noteq> d) buf = []"
    by (induction buf) auto
  then show ?thesis
    by (simp del: dropWhile_eq_Nil_conv)
qed

lemma loadRegisteredVehicles_loop_NotGood [simp]:
  "loadRegisteredVehicles_loop NotGood vehicles = vehicles"
  by (simp add: loadRegisteredVehicles_loop_fold)

text \<open>
  Claim C9. The load discards the first line of the registry file without looking at it:
  the result is the same as for the file with an empty first line, the registry is built
  from the lines after the first alone, and a file that is one line only leaves the system
  as it was. This holds also when the first line is a well-formed vehicle row (the
  instance below).
\<close>

theorem header_line_discarded:
  assumes "CHR ''\<newline>'' \<notin> set first"
  shows "loadRegisteredVehicles now (Some (first @ CHR ''\<newline>'' # rest)) ts =
           loadRegisteredVehicles now (Some (CHR ''\<newline>'' # rest)) ts \<and>
         registeredVehicles (loadRegisteredVehicles now (Some (first @ CHR ''\<newline>'' # rest)) ts) =
           fold store_row (stream_lines (Good rest)) (registeredVehicles ts) \<and>
         loadRegisteredVehicles now (Some first) ts = ts"
proof -
  have a: "getline (Good (first @ CHR ''\<newline>'' # rest)) (CHR ''\<newline>'') = (Some first, Good rest)"
    using assms by (rule getline_delim)
  have b: "getline (Good (CHR ''\<newline>'' # rest)) (CHR ''\<newline>'') = (Some [], Good rest)"
    by simp
  have c: "snd (getline (Good first) (CHR ''\<newline>'')) = NotGood"
    using assms by (simp add: getline_no_delim del: getline.simps)
  show ?thesis
    by (simp add: loadRegisteredVehicles_def a b c loadRegisteredVehicles_loop_fold del: getline.simps)
qed

theorem header_line_discarded_witness:
  "read_row ''ABC123,RF1234567,100.0,car'' =
     Some (''RF1234567'', new_Vehicle ''ABC123'' ''RF1234567'' 100 '''') \<and>
   registeredVehicles (new_TollSystem clock0 logger0 config0
     (Some ''ABC123,RF1234567,100.0,car\<newline>XYZ789,RF7654321,250.0,truck\<newline>'')) =
     [''RF7654321'' \<mapsto> new_Vehicle ''XYZ789'' ''RF7654321'' 250 ''''] \<and>
   new_TollSystem clock0 logger0 config0 (Some ''ABC123,RF1234567,100.0,car'') =
     \<lparr>logger = logger0, configManager = config0, registeredVehicles = Map.empty\<rparr>"
  using header_line_discarded [of "''ABC123,RF1234567,100.0,car''" clock0
          "''XYZ789,RF7654321,250.0,truck\<newline>''"
          "\<lparr>logger = logger0, configManager = config0, registeredVehicles = Map.empty\<rparr>"]
  by (simp add: new_TollSystem_def loadRegisteredVehicles_def loadRegisteredVehicles_loop_fold
        stream_lines_step store_row_def read_row_eval)

text \<open>
  Claim C3. On the registry file the README documents, the load stores one vehicle for
  each row under the row's rfid, with the row's plate and balance; but the type is not
  the row's: after \<^verbatim>\<open>iss >> balance\<close> the next character is the comma in front of the
  type, so \<^verbatim>\<open>std::getline(iss, type, ',')\<close> reads the empty string, and the car and the
  truck are both stored with the unknown class.
\<close>

theorem registry_row_type_lost:
  "registeredVehicles (new_TollSystem now lg config
     (Some ''plate,rfid,balance,type\<newline>ABC123,RF1234567,100.0,car\<newline>XYZ789,RF7654321,250.0,truck\<newline>'')) =
     [''RF1234567'' \<mapsto> \<lparr>plate = ''ABC123'', rfidTag = ''RF1234567'', balance = 100, vehicleClass = Unknown\<rparr>,
      ''RF7654321'' \<mapsto> \<lparr>plate = ''XYZ789'', rfidTag = ''RF7654321'', balance = 250, vehicleClass = Unknown\<rparr>] \<and>
   class_of_type ''car'' = Car \<and> class_of_type ''truck'' = Truck"
  by (simp add: registeredVehicles_new accepted_rows_def stream_lines_step read_row_eval
        new_Vehicle_def class_of_type_def)

section \<open>The logger and the default configuration\<close>

lemmas stod_eval = stod_def strtod_dec_def strtod_hex_def exponent_part_def finite_double_def
  tolower_def isxdigit_def isdigit_def digits_val_def digit_val_def overflows_def scale10_def
  scale2_def signed_def isspace_def underflows_def round_double_def ulp_def ilog2_def pow2_def
  round_half_even_def bit_length.simps

lemmas stoi_eval = stoi_def isdigit_def digits_val_def digit_val_def isspace_def

lemmas loadConfig_line_eval = loadConfig_line_def set_tollRate_def set_cameraResolutionWidth_def
  set_cameraResolutionHeight_def set_cameraFPS_def

lemma replicate_2: "replicate 2 c = [c, c]"
  by (simp add: numeral_2_eq_2)

lemma asctime_clock0: "asctime clock0 = ''Tue Nov  3 09:19:05 2026\<newline>''"
  by (simp add: asctime_def clock0_def wday_name_def mon_name_def pad_def show_nat.simps
        replicate_2)

lemma logTransaction_appends:
  "transactionLog (logTransaction put_double now vehicleId method amount remaining lg) =
     transactionLog lg @ asctime now @ '','' @ vehicleId @ '','' @ method @ '','' @
       put_double amount @ '','' @ put_double remaining @ ''\<newline>'' \<and>
   errorLog (logTransaction put_double now vehicleId method amount remaining lg) = errorLog lg"
  by (simp add: logTransaction_def)

text \<open>
  Claim C4. \<^verbatim>\<open>logTransaction\<close> appends to the transaction log and changes nothing that
  is there (\<open>logTransaction_appends\<close>), but what it appends is not one row
  \<^verbatim>\<open>timestamp,vehicle_id,payment_method,amount,balance_remaining\<close>: the text of
  \<^verbatim>\<open>std::ctime\<close> ends with a line break, so the record is the timestamp on a line of
  its own, followed by a line that starts with a comma.
\<close>

theorem transaction_row_split_by_ctime:
  "transactionLog (logTransaction put_double clock0 ''RF1'' ''rfid'' amount remaining lg) =
     transactionLog lg @ ''Tue Nov  3 09:19:05 2026\<newline>,RF1,rfid,'' @
       put_double amount @ '','' @ put_double remaining @ ''\<newline>'' \<and>
   hd (stream_lines (Good (transactionLog
         (logTransaction put_double clock0 ''RF1'' ''rfid'' amount remaining logger0)))) =
     ''Tue Nov  3 09:19:05 2026''"
  by (simp add: logTransaction_def asctime_clock0 logger0_def stream_lines_step)

lemma default_config_text_loads:
  "loadConfig (Some default_config_text) config =
     (None,
      Inr (config\<lparr>tollRates := (tollRates config)
                    (''car'' \<mapsto> Finite 50, ''truck'' \<mapsto> Finite 100, ''bus'' \<mapsto> Finite 75),
                  cameraResolutionWidth := 1920, cameraResolutionHeight := 1080, cameraFPS := 30\<rparr>))"
proof -
  have lines: "stream_lines (Good default_config_text) =
      [''# Toll Rates'', ''toll_rate_car=50.0'', ''toll_rate_truck=100.0'', ''toll_rate_bus=75.0'', [],
       ''# Camera Settings'', ''camera_resolution_width=1920'', ''camera_resolution_height=1080'',
       ''camera_fps=30'']"
    by (simp add: default_config_text_def stream_lines_step)
  have car: "stod ''50.0'' = Inr (Finite 50)" by (simp add: stod_eval)
  have truck: "stod ''100.0'' = Inr (Finite 100)" by (simp add: stod_eval)
  have bus: "stod ''75.0'' = Inr (Finite 75)" by (simp add: stod_eval)
  have wd: "stoi ''1920'' = Inr 1920" by (simp add: stoi_eval)
  have ht: "stoi ''1080'' = Inr 1080" by (simp add: stoi_eval)
  have fps: "stoi ''30'' = Inr 30" by (simp add: stoi_eval)
  show ?thesis
    by (simp add: loadConfig_def loadConfig_loop_lines lines loadConfig_line_eval
          car truck bus wd ht fps)
qed

text \<open>
  Claim C5. When \<^verbatim>\<open>config.txt\<close> cannot be opened, the configuration manager does not
  fail: it holds the rates car 50, truck 100 and bus 75 and the camera settings 1920 by
  1080 at 30 frames per second, and it has written the default text to \<^verbatim>\<open>config.txt\<close>.
  That text, loaded by a later run, gives the same configuration.
\<close>

theorem default_config_when_absent:
  "ConfigManager w h f None =
     (Some default_config_text,
      Inr \<lparr>tollRates = [''car'' \<mapsto> Finite 50, ''truck'' \<mapsto> Finite 100, ''bus'' \<mapsto> Finite 75],
           cameraResolutionWidth = 1920, cameraResolutionHeight = 1080, cameraFPS = 30\<rparr>) \<and>
   ConfigManager w' h' f' (Some default_config_text) =
     (None,
      Inr \<lparr>tollRates = [''car'' \<mapsto> Finite 50, ''truck'' \<mapsto> Finite 100, ''bus'' \<mapsto> Finite 75],
           cameraResolutionWidth = 1920, cameraResolutionHeight = 1080, cameraFPS = 30\<rparr>)"
  by (simp add: ConfigManager_def default_config_text_loads)
     (simp add: loadConfig_def createDefaultConfig_def)

section \<open>Loading the configuration\<close>

lemma getline_line_no_delim:
  "getline is d = (Some line, is') \<Longrightarrow> d \<notin> set line"
proof (cases "is")
  case NotGood
  assume "getline is d = (Some line, is')"
  with NotGood show ?thesis by simp
next
  case (Good buf)
  assume g: "getline is d = (Some line, is')"
  show ?thesis
  proof (cases "dropWhile (\<lambda>c. c \<noteq> d) buf")
    case Nil
    then have "d \<notin> set buf"
      by auto
    with g Good Nil show ?thesis
      by (auto simp del: dropWhile_eq_Nil_conv split: if_splits)
  next
    case (Cons c rest)
    with g Good have "line = takeWhile (\<lambda>c. c \<noteq> d) buf"
      by simp
    then show ?thesis
      by (auto dest: set_takeWhileD)
  qed
qed

lemma stream_lines_no_newline:
  "line \<in> set (stream_lines is) \<Longrightarrow> CHR ''\<newline>'' \<notin> set line"
proof (induction "is" arbitrary: line rule: stream_lines.induct)
  case (1 "is")
  obtain r is' where g: "getline is (CHR ''\<newline>'') = (r, is')"
    by (cases "getline is (CHR ''\<newline>'')")
  show ?case
  proof (cases r)
    case None
    with g have "stream_lines is = []"
      by (subst stream_lines.simps) simp
    with 1(2) show ?thesis by simp
  next
    case (Some l)
    with g have "stream_lines is = l # stream_lines is'"
      by (subst stream_lines.simps) simp
    with 1(2) have "line = l \<or> line \<in> set (stream_lines is')"
      by simp
    then show ?thesis
    proof
      assume "line = l"
      with g Some show ?thesis
        by (auto dest: getline_line_no_delim)
    next
      assume "line \<in> set (stream_lines is')"
      with 1(1) [OF g [symmetric] Some] show ?thesis .
    qed
  qed
qed

lemma loadConfig_lines_append:
  "loadConfig_lines (before @ after) config =
     (case loadConfig_lines before config of
        Inl thrown \<Rightarrow> Inl thrown
      | Inr config' \<Rightarrow> loadConfig_lines after config')"
  by (induction before arbitrary: config) (auto split: sum.splits)

lemma loadConfig_line_assignment:
  assumes "CHR ''='' \<notin> set key" and "key \<noteq> []" and "hd key \<noteq> CHR ''#''"
    and "val \<noteq> []" and "CHR ''\<newline>'' \<notin> set val"
  shows "loadConfig_line (key @ CHR ''='' # val) config =
     (if key = ''toll_rate_car'' then set_tollRate ''car'' val config
      else if key = ''toll_rate_truck'' then set_tollRate ''truck'' val config
      else if key = ''toll_rate_bus'' then set_tollRate ''bus'' val config
      else if key = ''camera_resolution_width'' then set_cameraResolutionWidth val config
      else if key = ''camera_resolution_height'' then set_cameraResolutionHeight val config
      else if key = ''camera_fps'' then set_cameraFPS val config
      else Inr config)"
proof -
  from assms(1) have g1: "getline (Good (key @ CHR ''='' # val)) (CHR ''='') = (Some key, Good val)"
    by (rule getline_delim)
  from assms(4,5) have g2: "getline (Good val) (CHR ''\<newline>'') = (Some val, NotGood)"
    by (simp add: getline_no_delim del: getline.simps)
  from assms(2,3) have h: "\<not> (key @ CHR ''='' # val = [] \<or> hd (key @ CHR ''='' # val) = CHR ''#'')"
    by simp
  show ?thesis
    unfolding loadConfig_line_def
    by (simp only: h g1 g2 if_False prod.case option.case)
qed

text \<open>
  What the load does skip and continue after: empty lines, comments, lines without
  \<^verbatim>\<open>=\<close> or with nothing after it, and keys it does not recognise.
\<close>

lemma loadConfig_line_skipped:
  assumes "line = [] \<or> hd line = CHR ''#'' \<or> CHR ''='' \<notin> set line \<or>
           (\<exists>key. line = key @ ''='' \<and> CHR ''='' \<notin> set key)"
  shows "loadConfig_line line config = Inr config"
proof (cases "line = [] \<or> hd line = CHR ''#''")
  case True
  then show ?thesis
    by (simp add: loadConfig_line_def)
next
  case False
  with assms consider (none) "CHR ''='' \<notin> set line"
    | (empty) key where "line = key @ ''=''" "CHR ''='' \<notin> set key"
    by blast
  then show ?thesis
  proof cases
    case none
    then have "getline (Good line) (CHR ''='') = (if line = [] then None else Some line, NotGood)"
      by (rule getline_no_delim)
    with False show ?thesis
      unfolding loadConfig_line_def by simp
  next
    case empty
    from empty(2) have "getline (Good (key @ CHR ''='' # [])) (CHR ''='') = (Some key, Good [])"
      by (rule getline_delim)
    with False empty(1) show ?thesis
      unfolding loadConfig_line_def by simp
  qed
qed

lemma loadConfig_line_unrecognised:
  assumes "CHR ''='' \<notin> set key" and "key \<noteq> []" and "hd key \<noteq> CHR ''#''"
    and "val \<noteq> []" and "CHR ''\<newline>'' \<notin> set val"
    and "key \<notin> {''toll_rate_car'', ''toll_rate_truck'', ''toll_rate_bus'',
           ''camera_resolution_width'', ''camera_resolution_height'', ''camera_fps''}"
  shows "loadConfig_line (key @ CHR ''='' # val) config = Inr config"
  using assms(6) unfolding loadConfig_line_assignment [OF assms(1-5)] by simp

lemma stod_malformed:
  "isl (stod val) \<Longrightarrow> \<exists>e. set_tollRate k val config = Inl (e, config)"
  by (cases "stod val") (simp_all add: set_tollRate_def)

lemma stoi_malformed:
  "isl (stoi val) \<Longrightarrow>
     (\<exists>e. set_cameraResolutionWidth val config = Inl (e, config)) \<and>
     (\<exists>e. set_cameraResolutionHeight val config = Inl (e, config)) \<and>
     (\<exists>e. set_cameraFPS val config = Inl (e, config))"
  by (cases "stoi val")
     (simp_all add: set_cameraResolutionWidth_def set_cameraResolutionHeight_def set_cameraFPS_def)

lemma loadConfig_line_malformed:
  assumes "malformed_value key val" and "val \<noteq> []" and "CHR ''\<newline>'' \<notin> set val"
  shows "\<exists>e. loadConfig_line (key @ CHR ''='' # val) config = Inl (e, config)"
proof -
  from assms(1) consider
      (car) "key = ''toll_rate_car''" "isl (stod val)"
    | (truck) "key = ''toll_rate_truck''" "isl (stod val)"
    | (bus) "key = ''toll_rate_bus''" "isl (stod val)"
    | (width) "key = ''camera_resolution_width''" "isl (stoi val)"
    | (height) "key = ''camera_resolution_height''" "isl (stoi val)"
    | (fps) "key = ''camera_fps''" "isl (stoi val)"
    unfolding malformed_value_def by (metis (full_types))
  note cases = this
  from cases have key: "CHR ''='' \<notin> set key \<and> key \<noteq> [] \<and> hd key \<noteq> CHR ''#''"
    by cases simp_all
  then have eq: "loadConfig_line (key @ CHR ''='' # val) config =
     (if key = ''toll_rate_car'' then set_tollRate ''car'' val config
      else if key = ''toll_rate_truck'' then set_tollRate ''truck'' val config
      else if key = ''toll_rate_bus'' then set_tollRate ''bus'' val config
      else if key = ''camera_resolution_width'' then set_cameraResolutionWidth val config
      else if key = ''camera_resolution_height'' then set_cameraResolutionHeight val config
      else if key = ''camera_fps'' then set_cameraFPS val config
      else Inr config)"
    using assms(2,3) by (intro loadConfig_line_assignment) simp_all
  from cases show ?thesis
    unfolding eq
    by cases (simp_all add: stod_malformed stoi_malformed)
qed

text \<open>
  Claim C2, as amended. The load processes the lines in order. A value for a recognised
  key that its conversion rejects, when it is not empty, ends the load at that line: the
  conversion raises out of \<^verbatim>\<open>loadConfig\<close>, the configuration is as the lines before it
  have set it, and no later line is processed. When the value is empty, the line is
  skipped and the load goes on with the lines after it.
\<close>

theorem malformed_value_outcome:
  assumes "stream_lines (Good content) = before @ (key @ CHR ''='' # val) # after"
    and "malformed_value key val"
    and "loadConfig_lines before config = Inr config1"
  shows "(val \<noteq> [] \<longrightarrow> (\<exists>e. loadConfig (Some content) config = (None, Inl (e, config1)))) \<and>
         (val = [] \<longrightarrow> loadConfig (Some content) config = (None, loadConfig_lines after config1))"
proof (intro conjI impI)
  assume val: "val \<noteq> []"
  have "key @ CHR ''='' # val \<in> set (stream_lines (Good content))"
    by (simp add: assms(1))
  then have "CHR ''\<newline>'' \<notin> set (key @ CHR ''='' # val)"
    by (rule stream_lines_no_newline)
  then have "CHR ''\<newline>'' \<notin> set val"
    by simp
  with assms(2) val obtain e where "loadConfig_line (key @ CHR ''='' # val) config1 = Inl (e, config1)"
    using loadConfig_line_malformed by blast
  with assms(1,3) have "loadConfig (Some content) config = (None, Inl (e, config1))"
    by (simp add: loadConfig_def loadConfig_loop_lines loadConfig_lines_append)
  then show "\<exists>e. loadConfig (Some content) config = (None, Inl (e, config1))" ..
next
  assume val: "val = []"
  from assms(2) have "key \<in> {''toll_rate_car'', ''toll_rate_truck'', ''toll_rate_bus'',
      ''camera_resolution_width'', ''camera_resolution_height'', ''camera_fps''}"
    unfolding malformed_value_def by (metis (full_types) insertCI)
  then have "CHR ''='' \<notin> set key"
    by auto
  then have "loadConfig_line (key @ ''='') config1 = Inr config1"
    by (intro loadConfig_line_skipped) blast
  with assms(1,3) val show "loadConfig (Some content) config = (None, loadConfig_lines after config1)"
    by (simp add: loadConfig_def loadConfig_loop_lines loadConfig_lines_append)
qed

text \<open>
  Claim C2 as stated fails: a non-numeric car rate ends the load with
  \<^verbatim>\<open>invalid_argument\<close>, and the truck rate on the next line, which loads on its own,
  is never assigned.
\<close>

theorem malformed_rate_aborts_load:
  "loadConfig (Some ''toll_rate_car=abc\<newline>toll_rate_truck=100.0\<newline>'') config0 =
     (None, Inl (invalid_argument, config0)) \<and>
   loadConfig (Some ''toll_rate_truck=100.0\<newline>'') config0 =
     (None, Inr (config0\<lparr>tollRates := [''truck'' \<mapsto> Finite 100]\<rparr>))"
proof -
  have abc: "stod ''abc'' = Inl invalid_argument" by (simp add: stod_eval)
  have truck: "stod ''100.0'' = Inr (Finite 100)" by (simp add: stod_eval)
  show ?thesis
    by (simp add: loadConfig_def loadConfig_loop_lines stream_lines_step loadConfig_line_eval
          abc truck config0_def)
qed

theorem malformed_value_outcome_witness:
  "(\<exists>e. loadConfig (Some ''toll_rate_car=50.0\<newline>toll_rate_truck=abc\<newline>toll_rate_bus=75.0\<newline>'') config0 =
     (None, Inl (e, config0\<lparr>tollRates := [''car'' \<mapsto> Finite 50]\<rparr>))) \<and>
   loadConfig (Some ''toll_rate_car=50.0\<newline>toll_rate_truck=\<newline>toll_rate_bus=75.0\<newline>'') config0 =
     (None, Inr (config0\<lparr>tollRates := [''car'' \<mapsto> Finite 50, ''bus'' \<mapsto> Finite 75]\<rparr>))"
proof -
  have abc: "stod ''abc'' = Inl invalid_argument" by (simp add: stod_eval)
  have nil: "stod [] = Inl invalid_argument" by (simp add: stod_eval)
  have car: "stod ''50.0'' = Inr (Finite 50)" by (simp add: stod_eval)
  have bus: "stod ''75.0'' = Inr (Finite 75)" by (simp add: stod_eval)
  have lines1: "stream_lines (Good ''toll_rate_car=50.0\<newline>toll_rate_truck=abc\<newline>toll_rate_bus=75.0\<newline>'') =
      [''toll_rate_car=50.0''] @ (''toll_rate_truck'' @ CHR ''='' # ''abc'') # [''toll_rate_bus=75.0'']"
    by (simp add: stream_lines_step)
  have lines2: "stream_lines (Good ''toll_rate_car=50.0\<newline>toll_rate_truck=\<newline>toll_rate_bus=75.0\<newline>'') =
      [''toll_rate_car=50.0''] @ (''toll_rate_truck'' @ CHR ''='' # []) # [''toll_rate_bus=75.0'']"
    by (simp add: stream_lines_step)
  have bad1: "malformed_value ''toll_rate_truck'' ''abc''"
    by (simp add: malformed_value_def abc)
  have bad2: "malformed_value ''toll_rate_truck'' []"
    by (simp add: malformed_value_def nil)
  have pre: "loadConfig_lines [''toll_rate_car=50.0''] config0 =
      Inr (config0\<lparr>tollRates := [''car'' \<mapsto> Finite 50]\<rparr>)"
    by (simp add: loadConfig_line_eval car config0_def)
  have post: "loadConfig_lines [''toll_rate_bus=75.0''] (config0\<lparr>tollRates := [''car'' \<mapsto> Finite 50]\<rparr>) =
      Inr (config0\<lparr>tollRates := [''car'' \<mapsto> Finite 50, ''bus'' \<mapsto> Finite 75]\<rparr>)"
    by (simp add: loadConfig_line_eval bus config0_def)
  from malformed_value_outcome [OF lines1 bad1 pre]
  have raised: "\<exists>e. loadConfig (Some ''toll_rate_car=50.0\<newline>toll_rate_truck=abc\<newline>toll_rate_bus=75.0\<newline>'') config0 =
      (None, Inl (e, config0\<lparr>tollRates := [''car'' \<mapsto> Finite 50]\<rparr>))"
    by simp
  from malformed_value_outcome [OF lines2 bad2 pre]
  have skipped: "loadConfig (Some ''toll_rate_car=50.0\<newline>toll_rate_truck=\<newline>toll_rate_bus=75.0\<newline>'') config0 =
      (None, Inr (config0\<lparr>tollRates := [''car'' \<mapsto> Finite 50, ''bus'' \<mapsto> Finite 75]\<rparr>))"
    unfolding post by simp
  from raised skipped show ?thesis ..
qed

section \<open>Loading twice\<close>

lemma agree_refl: "agree c d c d"
  by (simp add: agree_def)

lemma set_tollRate_agree:
  "agree c d c1 d1 \<Longrightarrow> set_tollRate k val c1 = Inr c2 \<Longrightarrow>
     \<exists>d2. set_tollRate k val d1 = Inr d2 \<and> agree c d c2 d2"
  by (cases "stod val") (auto simp: set_tollRate_def agree_def)

lemma set_cameraResolutionWidth_agree:
  "agree c d c1 d1 \<Longrightarrow> set_cameraResolutionWidth val c1 = Inr c2 \<Longrightarrow>
     \<exists>d2. set_cameraResolutionWidth val d1 = Inr d2 \<and> agree c d c2 d2"
  by (cases "stoi val") (auto simp: set_cameraResolutionWidth_def agree_def)

lemma set_cameraResolutionHeight_agree:
  "agree c d c1 d1 \<Longrightarrow> set_cameraResolutionHeight val c1 = Inr c2 \<Longrightarrow>
     \<exists>d2. set_cameraResolutionHeight val d1 = Inr d2 \<and> agree c d c2 d2"
  by (cases "stoi val") (auto simp: set_cameraResolutionHeight_def agree_def)

lemma set_cameraFPS_agree:
  "agree c d c1 d1 \<Longrightarrow> set_cameraFPS val c1 = Inr c2 \<Longrightarrow>
     \<exists>d2. set_cameraFPS val d1 = Inr d2 \<and> agree c d c2 d2"
  by (cases "stoi val") (auto simp: set_cameraFPS_def agree_def)

lemma loadConfig_line_agree:
  assumes "agree c d c1 d1" and "loadConfig_line line c1 = Inr c2"
  shows "\<exists>d2. loadConfig_line line d1 = Inr d2 \<and> agree c d c2 d2"
proof (cases "line = [] \<or> hd line = CHR ''#''")
  case True
  with assms show ?thesis
    by (simp add: loadConfig_line_def)
next
  case False
  obtain r1 iss where g1: "getline (Good line) (CHR ''='') = (r1, iss)"
    by (cases "getline (Good line) (CHR ''='')")
  obtain r2 iss' where g2: "getline iss (CHR ''\<newline>'') = (r2, iss')"
    by (cases "getline iss (CHR ''\<newline>'')")
  show ?thesis
  proof (cases r1)
    case None
    with assms False g1 show ?thesis
      by (simp add: loadConfig_line_def del: getline.simps)
  next
    case key: (Some key)
    show ?thesis
    proof (cases r2)
      case None
      with assms False g1 g2 key show ?thesis
        by (simp add: loadConfig_line_def del: getline.simps)
    next
      case val: (Some val)
      have eq: "\<And>config. loadConfig_line line config =
         (if key = ''toll_rate_car'' then set_tollRate ''car'' val config
          else if key = ''toll_rate_truck'' then set_tollRate ''truck'' val config
          else if key = ''toll_rate_bus'' then set_tollRate ''bus'' val config
          else if key = ''camera_resolution_width'' then set_cameraResolutionWidth val config
          else if key = ''camera_resolution_height'' then set_cameraResolutionHeight val config
          else if key = ''camera_fps'' then set_cameraFPS val config
          else Inr config)"
        using False g1 g2 key val
        by (simp add: loadConfig_line_def del: getline.simps)
      from assms show ?thesis
        unfolding eq
        by (auto split: if_splits
              intro: set_tollRate_agree set_cameraResolutionWidth_agree
                set_cameraResolutionHeight_agree set_cameraFPS_agree)
    qed
  qed
qed

lemma loadConfig_lines_agree:
  "agree c d c1 d1 \<Longrightarrow> loadConfig_lines lines c1 = Inr c2 \<Longrightarrow>
     \<exists>d2. loadConfig_lines lines d1 = Inr d2 \<and> agree c d c2 d2"
proof (induction lines arbitrary: c1 d1)
  case Nil
  then show ?case by simp
next
  case (Cons line lines)
  from Cons.prems(2) obtain c1' where s: "loadConfig_line line c1 = Inr c1'"
    and r: "loadConfig_lines lines c1' = Inr c2"
    by (auto split: sum.splits)
  from loadConfig_line_agree [OF Cons.prems(1) s] obtain d1'
    where s': "loadConfig_line line d1 = Inr d1'" and a: "agree c d c1' d1'"
    by blast
  from Cons.IH [OF a r] s' show ?case
    by simp
qed

lemma agree_same:
  assumes "agree c c' c' d'"
  shows "d' = c'"
proof -
  have "tollRates d' k = tollRates c' k" for k
    using assms unfolding agree_def by (elim conjE allE [of _ k]) auto
  then have "tollRates d' = tollRates c'"
    by (rule ext)
  moreover from assms have "cameraResolutionWidth d' = cameraResolutionWidth c'"
    and "cameraResolutionHeight d' = cameraResolutionHeight c'"
    and "cameraFPS d' = cameraFPS c'"
    by (auto simp: agree_def)
  ultimately show ?thesis
    by simp
qed

lemma loadConfig_lines_twice:
  assumes "loadConfig_lines lines config = Inr config'"
  shows "loadConfig_lines lines config' = Inr config'"
proof -
  from loadConfig_lines_agree [OF agree_refl assms, of config']
  obtain d' where r: "loadConfig_lines lines config' = Inr d'" and a: "agree config config' config' d'"
    by blast
  from a have "d' = config'"
    by (rule agree_same)
  with r show ?thesis by simp
qed

lemma loadRegisteredVehicles_Some:
  "loadRegisteredVehicles now (Some content) ts =
     ts\<lparr>registeredVehicles := registeredVehicles ts ++ map_of (rev (accepted_rows content))\<rparr>"
  by (simp add: loadRegisteredVehicles_def loadRegisteredVehicles_loop_fold
        stream_lines_after_getline fold_store_row accepted_rows_def del: getline.simps)

lemma ConfigManager_settings_determined:
  assumes "ConfigManager w h f (Some source) = (None, Inr c1)"
  shows "\<exists>c2. ConfigManager w' h' f' (Some source) = (None, Inr c2) \<and>
           tollRates c2 = tollRates c1 \<and>
           (cameraResolutionWidth c2 = cameraResolutionWidth c1 \<or>
              (cameraResolutionWidth c1 = w \<and> cameraResolutionWidth c2 = w')) \<and>
           (cameraResolutionHeight c2 = cameraResolutionHeight c1 \<or>
              (cameraResolutionHeight c1 = h \<and> cameraResolutionHeight c2 = h')) \<and>
           (cameraFPS c2 = cameraFPS c1 \<or> (cameraFPS c1 = f \<and> cameraFPS c2 = f'))"
proof -
  let ?c = "\<lparr>tollRates = Map.empty, cameraResolutionWidth = w,
             cameraResolutionHeight = h, cameraFPS = f\<rparr>"
  let ?d = "\<lparr>tollRates = Map.empty, cameraResolutionWidth = w',
             cameraResolutionHeight = h', cameraFPS = f'\<rparr>"
  from assms have "loadConfig_lines (stream_lines (Good source)) ?c = Inr c1"
    by (simp add: ConfigManager_def loadConfig_def loadConfig_loop_lines)
  from loadConfig_lines_agree [OF agree_refl this, of ?d]
  obtain c2 where r: "loadConfig_lines (stream_lines (Good source)) ?d = Inr c2"
    and a: "agree ?c ?d c1 c2"
    by blast
  have "tollRates c2 k = tollRates c1 k" for k
    using a unfolding agree_def by (elim conjE allE [of _ k]) auto
  then have "tollRates c2 = tollRates c1"
    by (rule ext)
  with r a show ?thesis
    by (auto simp: ConfigManager_def loadConfig_def loadConfig_loop_lines agree_def)
qed

lemma assigns_line:
  assumes "assigns source key"
  obtains before val after where
    "stream_lines (Good source) = before @ (key @ CHR ''='' # val) # after"
    and "val \<noteq> []" and "CHR ''\<newline>'' \<notin> set val"
proof -
  from assms obtain line where mem: "line \<in> set (stream_lines (Good source))"
    and pre: "take (Suc (length key)) line = key @ ''=''"
    and len: "Suc (length key) < length line"
    unfolding assigns_def list_ex_iff by blast
  define val where "val = drop (Suc (length key)) line"
  have "line = take (Suc (length key)) line @ drop (Suc (length key)) line"
    by simp
  with pre have line: "line = key @ CHR ''='' # val"
    unfolding val_def by simp
  from len have val: "val \<noteq> []"
    unfolding val_def by simp
  from mem have "CHR ''\<newline>'' \<notin> set line"
    by (rule stream_lines_no_newline)
  with line have nl: "CHR ''\<newline>'' \<notin> set val"
    by simp
  from mem obtain before after where "stream_lines (Good source) = before @ line # after"
    by (auto dest: split_list)
  with line val nl that show thesis
    by blast
qed

lemma assigned_setting_determined:
  assumes lines: "lines = before @ (key @ CHR ''='' # val) # after"
    and val: "val \<noteq> []" "CHR ''\<newline>'' \<notin> set val"
    and c: "loadConfig_lines lines c = Inr c'"
    and d: "loadConfig_lines lines d = Inr d'"
  shows "(key = ''camera_resolution_width'' \<longrightarrow> cameraResolutionWidth d' = cameraResolutionWidth c') \<and>
         (key = ''camera_resolution_height'' \<longrightarrow> cameraResolutionHeight d' = cameraResolutionHeight c') \<and>
         (key = ''camera_fps'' \<longrightarrow> cameraFPS d' = cameraFPS c')"
proof -
  let ?line = "key @ CHR ''='' # val"
  from c obtain c1 c2 where c1: "loadConfig_lines before c = Inr c1"
    and c2: "loadConfig_line ?line c1 = Inr c2"
    and c3: "loadConfig_lines after c2 = Inr c'"
    unfolding lines loadConfig_lines_append by (auto split: sum.splits)
  from d obtain d1 d2 where d1: "loadConfig_lines before d = Inr d1"
    and d2: "loadConfig_line ?line d1 = Inr d2"
    and d3: "loadConfig_lines after d2 = Inr d'"
    unfolding lines loadConfig_lines_append by (auto split: sum.splits)
  from loadConfig_lines_agree [OF agree_refl c3, of d2] d3
  have a: "agree c2 d2 c' d'"
    by auto
  have width: "cameraResolutionWidth d' = cameraResolutionWidth c'"
    if key: "key = ''camera_resolution_width''"
  proof -
    have "\<And>config. loadConfig_line ?line config = set_cameraResolutionWidth val config"
      unfolding key using val by (subst loadConfig_line_assignment) simp_all
    with c2 d2 have "cameraResolutionWidth d2 = cameraResolutionWidth c2"
      by (cases "stoi val") (auto simp: set_cameraResolutionWidth_def)
    with a show ?thesis
      by (auto simp: agree_def)
  qed
  have height: "cameraResolutionHeight d' = cameraResolutionHeight c'"
    if key: "key = ''camera_resolution_height''"
  proof -
    have "\<And>config. loadConfig_line ?line config = set_cameraResolutionHeight val config"
      unfolding key using val by (subst loadConfig_line_assignment) simp_all
    with c2 d2 have "cameraResolutionHeight d2 = cameraResolutionHeight c2"
      by (cases "stoi val") (auto simp: set_cameraResolutionHeight_def)
    with a show ?thesis
      by (auto simp: agree_def)
  qed
  have fps: "cameraFPS d' = cameraFPS c'"
    if key: "key = ''camera_fps''"
  proof -
    have "\<And>config. loadConfig_line ?line config = set_cameraFPS val config"
      unfolding key using val by (subst loadConfig_line_assignment) simp_all
    with c2 d2 have "cameraFPS d2 = cameraFPS c2"
      by (cases "stoi val") (auto simp: set_cameraFPS_def)
    with a show ?thesis
      by (auto simp: agree_def)
  qed
  from width height fps show ?thesis
    by blast
qed

lemma loadConfig_again:
  assumes "loadConfig (Some source) config = (None, Inr config')"
  shows "loadConfig (Some source) config' = (None, Inr config')"
proof -
  from assms have "loadConfig_lines (stream_lines (Good source)) config = Inr config'"
    by (simp add: loadConfig_def loadConfig_loop_lines)
  then have "loadConfig_lines (stream_lines (Good source)) config' = Inr config'"
    by (rule loadConfig_lines_twice)
  then show ?thesis
    by (simp add: loadConfig_def loadConfig_loop_lines)
qed

lemma loadRegisteredVehicles_again:
  "loadRegisteredVehicles now' (Some rows) (loadRegisteredVehicles now (Some rows) ts) =
     loadRegisteredVehicles now (Some rows) ts"
proof -
  have "(m ++ g) ++ g = m ++ g" for m g :: "string \<rightharpoonup> Vehicle"
    by (rule ext) (simp add: map_add_def split: option.splits)
  then show ?thesis
    by (simp add: loadRegisteredVehicles_Some)
qed

text \<open>
  Claim C8, as amended. When a configuration manager constructed on a file loads it
  without an exception, so does any other manager constructed on that file, and the two
  hold the same rates and the same value for every camera setting that the file assigns;
  when the file assigns all three camera settings, they hold the same configuration.
  Loading the file again into the configuration it produced changes nothing. Two systems
  constructed on the same registry file hold the same registry, and loading that file
  again changes nothing.
\<close>

theorem load_determined_by_source:
  assumes "ConfigManager w h f (Some source) = (None, Inr c1)"
  shows "(\<exists>c2. ConfigManager w' h' f' (Some source) = (None, Inr c2) \<and>
            tollRates c2 = tollRates c1 \<and>
            (assigns source ''camera_resolution_width'' \<longrightarrow>
               cameraResolutionWidth c2 = cameraResolutionWidth c1) \<and>
            (assigns source ''camera_resolution_height'' \<longrightarrow>
               cameraResolutionHeight c2 = cameraResolutionHeight c1) \<and>
            (assigns source ''camera_fps'' \<longrightarrow> cameraFPS c2 = cameraFPS c1) \<and>
            (assigns source ''camera_resolution_width'' \<and>
             assigns source ''camera_resolution_height'' \<and>
             assigns source ''camera_fps'' \<longrightarrow> c2 = c1)) \<and>
         loadConfig (Some source) c1 = (None, Inr c1) \<and>
         registeredVehicles (new_TollSystem now lg config (Some rows)) =
           registeredVehicles (new_TollSystem now' lg' config' (Some rows)) \<and>
         loadRegisteredVehicles now' (Some rows) (loadRegisteredVehicles now (Some rows) ts) =
           loadRegisteredVehicles now (Some rows) ts"
proof (intro conjI)
  let ?c = "\<lparr>tollRates = Map.empty, cameraResolutionWidth = w,
             cameraResolutionHeight = h, cameraFPS = f\<rparr>"
  let ?d = "\<lparr>tollRates = Map.empty, cameraResolutionWidth = w',
             cameraResolutionHeight = h', cameraFPS = f'\<rparr>"
  from ConfigManager_settings_determined [OF assms, of w' h' f']
  obtain c2 where c2: "ConfigManager w' h' f' (Some source) = (None, Inr c2)"
    and rates: "tollRates c2 = tollRates c1"
    by blast
  from assms have r1: "loadConfig_lines (stream_lines (Good source)) ?c = Inr c1"
    by (simp add: ConfigManager_def loadConfig_def loadConfig_loop_lines)
  from c2 have r2: "loadConfig_lines (stream_lines (Good source)) ?d = Inr c2"
    by (simp add: ConfigManager_def loadConfig_def loadConfig_loop_lines)
  have width: "cameraResolutionWidth c2 = cameraResolutionWidth c1"
    if "assigns source ''camera_resolution_width''"
    using that assigned_setting_determined [OF _ _ _ r1 r2]
    by (elim assigns_line) blast
  have height: "cameraResolutionHeight c2 = cameraResolutionHeight c1"
    if "assigns source ''camera_resolution_height''"
    using that assigned_setting_determined [OF _ _ _ r1 r2]
    by (elim assigns_line) blast
  have fps: "cameraFPS c2 = cameraFPS c1"
    if "assigns source ''camera_fps''"
    using that assigned_setting_determined [OF _ _ _ r1 r2]
    by (elim assigns_line) blast
  from c2 rates width height fps
  show "\<exists>c2. ConfigManager w' h' f' (Some source) = (None, Inr c2) \<and>
            tollRates c2 = tollRates c1 \<and>
            (assigns source ''camera_resolution_width'' \<longrightarrow>
               cameraResolutionWidth c2 = cameraResolutionWidth c1) \<and>
            (assigns source ''camera_resolution_height'' \<longrightarrow>
               cameraResolutionHeight c2 = cameraResolutionHeight c1) \<and>
            (assigns source ''camera_fps'' \<longrightarrow> cameraFPS c2 = cameraFPS c1) \<and>
            (assigns source ''camera_resolution_width'' \<and>
             assigns source ''camera_resolution_height'' \<and>
             assigns source ''camera_fps'' \<longrightarrow> c2 = c1)"
    by (intro exI [of _ c2]) simp
next
  from assms show "loadConfig (Some source) c1 = (None, Inr c1)"
    unfolding ConfigManager_def by (rule loadConfig_again)
next
  show "registeredVehicles (new_TollSystem now lg config (Some rows)) =
      registeredVehicles (new_TollSystem now' lg' config' (Some rows))"
    by (simp add: registeredVehicles_new)
next
  show "loadRegisteredVehicles now' (Some rows) (loadRegisteredVehicles now (Some rows) ts) =
      loadRegisteredVehicles now (Some rows) ts"
    by (rule loadRegisteredVehicles_again)
qed

text \<open>
  Claim C8 as stated fails: the constructor of \<^verbatim>\<open>ConfigManager\<close> leaves the three
  camera integers of \<^verbatim>\<open>config\<close> uninitialised, and a file that assigns the car rate only
  leaves them as they were. Two managers constructed on that same file hold different
  configurations.
\<close>

theorem fresh_managers_differ:
  "ConfigManager 0 0 0 (Some ''toll_rate_car=50.0\<newline>'') =
     (None, Inr \<lparr>tollRates = [''car'' \<mapsto> Finite 50], cameraResolutionWidth = 0,
                 cameraResolutionHeight = 0, cameraFPS = 0\<rparr>) \<and>
   ConfigManager 1562475008 32534 6 (Some ''toll_rate_car=50.0\<newline>'') =
     (None, Inr \<lparr>tollRates = [''car'' \<mapsto> Finite 50], cameraResolutionWidth = 1562475008,
                 cameraResolutionHeight = 32534, cameraFPS = 6\<rparr>)"
proof -
  have car: "stod ''50.0'' = Inr (Finite 50)" by (simp add: stod_eval)
  show ?thesis
    by (simp add: ConfigManager_def loadConfig_def loadConfig_loop_lines stream_lines_step
          loadConfig_line_eval car)
qed

theorem load_determined_by_source_witness:
  "(\<exists>c2. ConfigManager 1562475008 32534 6 (Some ''toll_rate_car=50.0\<newline>camera_fps=30\<newline>'') = (None, Inr c2) \<and>
         tollRates c2 = [''car'' \<mapsto> Finite 50] \<and> cameraFPS c2 = 30) \<and>
   loadConfig (Some ''toll_rate_car=50.0\<newline>camera_fps=30\<newline>'')
     \<lparr>tollRates = [''car'' \<mapsto> Finite 50], cameraResolutionWidth = 0,
      cameraResolutionHeight = 0, cameraFPS = 30\<rparr> =
     (None, Inr \<lparr>tollRates = [''car'' \<mapsto> Finite 50], cameraResolutionWidth = 0,
                 cameraResolutionHeight = 0, cameraFPS = 30\<rparr>) \<and>
   registeredVehicles (new_TollSystem clock0 logger0 config0
       (Some ''plate,rfid,balance,type\<newline>ABC123,RF1234567,100.0,car\<newline>'')) =
     registeredVehicles (new_TollSystem clock0 logger0
       \<lparr>tollRates = [''car'' \<mapsto> Finite 50], cameraResolutionWidth = 0,
        cameraResolutionHeight = 0, cameraFPS = 30\<rparr>
       (Some ''plate,rfid,balance,type\<newline>ABC123,RF1234567,100.0,car\<newline>'')) \<and>
   loadRegisteredVehicles clock0
     (Some ''plate,rfid,balance,type\<newline>ABC123,RF1234567,100.0,car\<newline>'')
     (new_TollSystem clock0 logger0 config0
       (Some ''plate,rfid,balance,type\<newline>ABC123,RF1234567,100.0,car\<newline>'')) =
     new_TollSystem clock0 logger0 config0
       (Some ''plate,rfid,balance,type\<newline>ABC123,RF1234567,100.0,car\<newline>'')"
proof -
  let ?src = "''toll_rate_car=50.0\<newline>camera_fps=30\<newline>''"
  let ?rows = "''plate,rfid,balance,type\<newline>ABC123,RF1234567,100.0,car\<newline>''"
  let ?c1 = "\<lparr>tollRates = [''car'' \<mapsto> Finite 50], cameraResolutionWidth = 0,
              cameraResolutionHeight = 0, cameraFPS = 30\<rparr>"
  have car: "stod ''50.0'' = Inr (Finite 50)" by (simp add: stod_eval)
  have fps: "stoi ''30'' = Inr 30" by (simp add: stoi_eval)
  have first: "ConfigManager 0 0 0 (Some ?src) = (None, Inr ?c1)"
    by (simp add: ConfigManager_def loadConfig_def loadConfig_loop_lines stream_lines_step
          loadConfig_line_eval car fps)
  have assigned: "assigns ?src ''camera_fps''"
    by (simp add: assigns_def stream_lines_step)
  note determined = load_determined_by_source [OF first, of 1562475008 32534 6 clock0 logger0
      config0 ?rows clock0 logger0 ?c1
      "\<lparr>logger = logger0, configManager = config0, registeredVehicles = Map.empty\<rparr>"]
  from determined assigned obtain c2
    where "ConfigManager 1562475008 32534 6 (Some ?src) = (None, Inr c2)"
      and "tollRates c2 = tollRates ?c1" and "cameraFPS c2 = cameraFPS ?c1"
    by blast
  then have "\<exists>c2. ConfigManager 1562475008 32534 6 (Some ?src) = (None, Inr c2) \<and>
      tollRates c2 = [''car'' \<mapsto> Finite 50] \<and> cameraFPS c2 = 30"
    by simp
  moreover from determined have "loadConfig (Some ?src) ?c1 = (None, Inr ?c1)"
    by blast
  moreover from determined
  have "registeredVehicles (new_TollSystem clock0 logger0 config0 (Some ?rows)) =
      registeredVehicles (new_TollSystem clock0 logger0 ?c1 (Some ?rows))"
    by blast
  moreover from determined
  have "loadRegisteredVehicles clock0 (Some ?rows) (new_TollSystem clock0 logger0 config0 (Some ?rows)) =
      new_TollSystem clock0 logger0 config0 (Some ?rows)"
    unfolding new_TollSystem_def by blast
  ultimately show ?thesis
    by blast
qed

section \<open>Charging and rejecting\<close>

lemma charge_success:
  "amount \<le> balance vehicle \<Longrightarrow>
     charge reg vehicle amount =
       Inr (balance vehicle - amount,
            reg\<lparr>by_rfid := (by_rfid reg)
                  (rfidTag vehicle \<mapsto> vehicle\<lparr>balance := balance vehicle - amount\<rparr>)\<rparr>)"
  by (simp add: charge_def)

lemma charge_failure:
  "balance vehicle < amount \<Longrightarrow> charge reg vehicle amount = Inl InsufficientFunds"
  by (simp add: charge_def)

text \<open>
  Claim C1. For a registered vehicle with balance \<open>B\<close>, charging \<open>R\<close> succeeds exactly
  when \<open>B \<ge> R\<close>. Then the new balance is \<open>B - R\<close>, stored under the vehicle's key, with
  every other entry and the plate index as before. When \<open>B < R\<close> the charge returns
  \<open>InsufficientFunds\<close> and no new registry, and the processor that made the charge
  keeps its registry and its ledger as they were.
\<close>

theorem charge_iff_sufficient_balance:
  assumes "lookup (registry st) ident = Some vehicle"
  shows "((\<exists>r. charge (registry st) vehicle amount = Inr r) \<longleftrightarrow> amount \<le> balance vehicle) \<and>
         (amount \<le> balance vehicle \<longrightarrow>
            (\<exists>reg'. charge (registry st) vehicle amount = Inr (balance vehicle - amount, reg') \<and>
               by_rfid reg' (rfidTag vehicle) = Some (vehicle\<lparr>balance := balance vehicle - amount\<rparr>) \<and>
               (\<forall>k. k \<noteq> rfidTag vehicle \<longrightarrow> by_rfid reg' k = by_rfid (registry st) k) \<and>
               by_plate reg' = by_plate (registry st))) \<and>
         (balance vehicle < amount \<longrightarrow> charge (registry st) vehicle amount = Inl InsufficientFunds) \<and>
         (balance vehicle < resolve_rate table (vehicleClass vehicle) \<longrightarrow>
            fst (process_transaction table now method ident st) = RejectedInsufficientFunds \<and>
            registry (snd (process_transaction table now method ident st)) = registry st \<and>
            ledger (snd (process_transaction table now method ident st)) = ledger st)"
proof (intro conjI impI)
  show "(\<exists>r. charge (registry st) vehicle amount = Inr r) \<longleftrightarrow> amount \<le> balance vehicle"
    by (simp add: charge_def)
next
  assume "amount \<le> balance vehicle"
  then show "\<exists>reg'. charge (registry st) vehicle amount = Inr (balance vehicle - amount, reg') \<and>
      by_rfid reg' (rfidTag vehicle) = Some (vehicle\<lparr>balance := balance vehicle - amount\<rparr>) \<and>
      (\<forall>k. k \<noteq> rfidTag vehicle \<longrightarrow> by_rfid reg' k = by_rfid (registry st) k) \<and>
      by_plate reg' = by_plate (registry st)"
    by (simp add: charge_success)
next
  assume "balance vehicle < amount"
  then show "charge (registry st) vehicle amount = Inl InsufficientFunds"
    by (rule charge_failure)
next
  assume low: "balance vehicle < resolve_rate table (vehicleClass vehicle)"
  with assms show "fst (process_transaction table now method ident st) = RejectedInsufficientFunds"
    by (simp add: process_transaction_def charge_failure)
  from low assms show "registry (snd (process_transaction table now method ident st)) = registry st"
    by (simp add: process_transaction_def charge_failure)
  from low assms show "ledger (snd (process_transaction table now method ident st)) = ledger st"
    by (simp add: process_transaction_def charge_failure)
qed

theorem charge_iff_sufficient_balance_witness:
  "charge (scenario_registry 100)
     \<lparr>plate = ''ABC123'', rfidTag = ''RF1'', balance = 100, vehicleClass = Car\<rparr> 50 =
     Inr (50, scenario_registry 50) \<and>
   charge (scenario_registry 0)
     \<lparr>plate = ''ABC123'', rfidTag = ''RF1'', balance = 0, vehicleClass = Car\<rparr> 50 =
     Inl InsufficientFunds \<and>
   process_transaction scenario_table clock0 Rfid ''RF1''
     \<lparr>registry = scenario_registry 0, ledger = [], error_log = []\<rparr> =
     (RejectedInsufficientFunds,
      \<lparr>registry = scenario_registry 0, ledger = [],
       error_log = [\<lparr>error_timestamp = clock0, message = ''insufficient balance: RF1''\<rparr>]\<rparr>)"
proof -
  let ?v = "\<lambda>b. \<lparr>plate = ''ABC123'', rfidTag = ''RF1'', balance = b, vehicleClass = Car\<rparr>"
  have l: "lookup (registry \<lparr>registry = scenario_registry b, ledger = [], error_log = []\<rparr>) ''RF1'' =
      Some (?v b)" for b
    by (simp add: lookup_def scenario_registry_def)
  from charge_iff_sufficient_balance [OF l [of 100], of 50 scenario_table clock0 Rfid]
  have "charge (scenario_registry 100) (?v 100) 50 = Inr (50, scenario_registry 50)"
    by (simp add: charge_def scenario_registry_def)
  moreover
  from charge_iff_sufficient_balance [OF l [of 0], of 50 scenario_table clock0 Rfid]
  have "charge (scenario_registry 0) (?v 0) 50 = Inl InsufficientFunds"
    by simp
  moreover
  have "process_transaction scenario_table clock0 Rfid ''RF1''
     \<lparr>registry = scenario_registry 0, ledger = [], error_log = []\<rparr> =
     (RejectedInsufficientFunds,
      \<lparr>registry = scenario_registry 0, ledger = [],
       error_log = [\<lparr>error_timestamp = clock0, message = ''insufficient balance: RF1''\<rparr>]\<rparr>)"
    by (simp add: process_transaction_def lookup_def scenario_registry_def scenario_table_def
          resolve_rate_def charge_def)
  ultimately show ?thesis
    by simp
qed

text \<open>
  Claim C6. For an identifier that the lookup does not resolve, the processor returns
  \<open>RejectedUnregistered\<close> and appends one error record with the reason "unregistered
  vehicle"; the registry (every balance) and the ledger are as before, and the outcome
  does not depend on the rate table: no charge is made.
\<close>

theorem unregistered_identifier_rejected:
  assumes "lookup (registry st) ident = None"
  shows "process_transaction table now method ident st =
           (RejectedUnregistered,
            st\<lparr>error_log := error_log st @
                 [\<lparr>error_timestamp = now, message = ''unregistered vehicle: '' @ ident\<rparr>]\<rparr>) \<and>
         registry (snd (process_transaction table now method ident st)) = registry st \<and>
         ledger (snd (process_transaction table now method ident st)) = ledger st \<and>
         length (error_log (snd (process_transaction table now method ident st))) =
           Suc (length (error_log st)) \<and>
         process_transaction table' now method ident st = process_transaction table now method ident st"
  using assms by (simp add: process_transaction_def)

theorem unregistered_identifier_rejected_witness:
  "process_transaction scenario_table clock0 AnprBilling ''UNKNOWN123''
     \<lparr>registry = scenario_registry 100, ledger = [], error_log = []\<rparr> =
     (RejectedUnregistered,
      \<lparr>registry = scenario_registry 100, ledger = [],
       error_log = [\<lparr>error_timestamp = clock0, message = ''unregistered vehicle: UNKNOWN123''\<rparr>]\<rparr>)"
proof -
  have "lookup (registry \<lparr>registry = scenario_registry 100, ledger = [], error_log = []\<rparr>)
      ''UNKNOWN123'' = None"
    by (simp add: lookup_def scenario_registry_def)
  from unregistered_identifier_rejected [OF this, of scenario_table clock0 AnprBilling scenario_table]
  show ?thesis
    by simp
qed

section \<open>Rows of the registry file\<close>

lemma fields_not_Nil [simp]: "fields s \<noteq> []"
  by (induction s) (auto split: list.splits)

lemma fields_no_comma: "CHR '','' \<notin> set s \<Longrightarrow> fields s = [s]"
  by (induction s) auto

lemma fields_comma: "CHR '','' \<notin> set f \<Longrightarrow> fields (f @ CHR '','' # s) = f # fields s"
  by (induction f) auto

lemma fields_decomp:
  "fields s = f # fs \<Longrightarrow>
     CHR '','' \<notin> set f \<and>
     (if fs = [] then s = f else \<exists>s'. s = f @ CHR '','' # s' \<and> fields s' = fs)"
proof (induction s arbitrary: f fs)
  case Nil
  then show ?case by simp
next
  case (Cons c s)
  show ?case
  proof (cases "c = CHR '',''")
    case True
    with Cons.prems show ?thesis by auto
  next
    case False
    obtain g gs where g: "fields s = g # gs"
      by (cases "fields s") simp_all
    with Cons.prems False have f: "f = c # g" and fs: "fs = gs"
      by simp_all
    from Cons.IH [OF g] f fs False show ?thesis
      by auto
  qed
qed

lemma fields_two_or_more:
  assumes "2 \<le> length (fields row)"
  shows "\<exists>p rest. row = p @ CHR '','' # rest \<and> CHR '','' \<notin> set p \<and>
           fields row = p # fields rest"
proof -
  obtain f fs where f: "fields row = f # fs"
    by (cases "fields row") simp_all
  with assms have "fs \<noteq> []"
    by auto
  with fields_decomp [OF f] f show ?thesis
    by auto
qed

subsection \<open>Reading the balance\<close>

lemma stops_takeWhile [simp]: "stops tail \<Longrightarrow> takeWhile isdigit tail = []"
  by (cases tail) (auto simp: stops_def isdigit_def)

lemma stops_dropWhile [simp]: "stops tail \<Longrightarrow> dropWhile isdigit tail = tail"
  by (cases tail) (auto simp: stops_def isdigit_def)

lemma stops_dropWhile_isspace [simp]: "stops tail \<Longrightarrow> dropWhile isspace tail = tail"
  by (cases tail) (auto simp: stops_def isspace_def)

lemma stops_take_sign [simp]: "stops tail \<Longrightarrow> take_sign tail = (False, tail)"
  by (cases tail) (auto simp: stops_def)

lemma take_sign_append:
  "s \<noteq> [] \<Longrightarrow> take_sign (s @ t) = (fst (take_sign s), snd (take_sign s) @ t)"
  by (cases s) auto

lemma digits_then_stop:
  "list_all isdigit ds \<Longrightarrow> stops tail \<Longrightarrow>
     takeWhile isdigit (ds @ tail) = ds \<and> dropWhile isdigit (ds @ tail) = tail"
  by (induction ds) auto

lemma takeWhile_digits: "list_all isdigit (takeWhile isdigit u)"
  by (induction u) auto

lemma digits_val_snoc: "digits_val (ds @ [c]) = 10 * digits_val ds + digit_val c"
  by (simp add: digits_val_def)

lemma digits_val_bound: "list_all isdigit ds \<Longrightarrow> digits_val ds < 10 ^ length ds"
proof (induction ds rule: rev_induct)
  case Nil
  show ?case by (simp add: digits_val_def)
next
  case (snoc c ds)
  then have "digits_val ds < 10 ^ length ds" and "digit_val c \<le> 9"
    by (auto simp: isdigit_def digit_val_def)
  then have "10 * digits_val ds + digit_val c < 10 * 10 ^ length ds"
    by linarith
  then show ?case
    by (simp add: digits_val_snoc)
qed

lemma digits_val_Nil [simp]: "digits_val [] = 0"
  by (simp add: digits_val_def)

lemma float_value_plain:
  "float_value neg ip fp False [] = signed neg (of_nat (digits_val (ip @ fp)) / 10 ^ length fp)"
  by (simp add: float_value_def scale10_def)

lemma decimal_in_range:
  assumes "list_all isdigit ip" and "list_all isdigit fp" and "length ip \<le> 308"
  shows "\<not> overflows (float_value neg ip fp False [])"
proof -
  define x :: rat where "x = of_nat (digits_val (ip @ fp)) / 10 ^ length fp"
  define bound :: rat where "bound = 2 ^ 1024 - 2 ^ 970"
  from assms(1,2) have "digits_val (ip @ fp) < 10 ^ length (ip @ fp)"
    by (intro digits_val_bound) simp
  then have "(of_nat (digits_val (ip @ fp)) :: rat) < of_nat (10 ^ length (ip @ fp))"
    by (simp only: of_nat_less_iff)
  then have "(of_nat (digits_val (ip @ fp)) :: rat) < 10 ^ length ip * 10 ^ length fp"
    by (simp add: power_add)
  then have "x < 10 ^ length ip"
    by (simp add: x_def pos_divide_less_eq)
  also from assms(3) have "(10::rat) ^ length ip \<le> 10 ^ 308"
    by (intro power_increasing) simp_all
  also have "(10::rat) ^ 308 < bound"
    by (simp add: bound_def)
  finally have "x < bound" .
  moreover have "0 \<le> x"
    by (simp add: x_def)
  ultimately have "\<bar>signed neg x\<bar> < bound"
    by (simp add: signed_def)
  then show ?thesis
    unfolding overflows_def float_value_plain x_def [symmetric] bound_def [symmetric]
    by simp
qed

lemma stops_not_point [simp]: "stops tail \<Longrightarrow> \<not> (tail \<noteq> [] \<and> hd tail = CHR ''.'')"
  by (auto simp: stops_def)

lemma stops_not_exponent [simp]:
  "stops tail \<Longrightarrow> \<not> (tail \<noteq> [] \<and> (hd tail = CHR ''e'' \<or> hd tail = CHR ''E'') \<and> m)"
  by (auto simp: stops_def)

lemma digits_then_other:
  "list_all isdigit ds \<Longrightarrow> \<not> isdigit c \<Longrightarrow>
     takeWhile isdigit (ds @ c # rest) = ds \<and> dropWhile isdigit (ds @ c # rest) = c # rest"
  by (induction ds) auto

lemma point_not_digit [simp]: "\<not> isdigit (CHR ''.'')"
  by (simp add: isdigit_def)

lemma filter_digits: "list_all isdigit ds \<Longrightarrow> filter isdigit ds = ds"
  by (induction ds) auto

lemma dropWhile_digits: "list_all isdigit ds \<Longrightarrow> dropWhile isdigit ds = []"
  by (induction ds) auto

lemma scan_float_convert_plain:
  "ip \<noteq> [] \<Longrightarrow> list_all isdigit ip \<Longrightarrow> list_all isdigit fp \<Longrightarrow> length ip \<le> 308 \<Longrightarrow>
     scan_float_convert neg ip fp False False [] tail =
       (Some (round_double (float_value neg ip fp False [])), tail)"
  by (simp add: scan_float_convert_def decimal_in_range)

lemma scan_decimal:
  assumes "is_decimal b" and "stops tail"
  shows "scan_float (b @ tail) = (Some (round_double (decimal_value b)), tail)"
proof -
  define neg where "neg = fst (take_sign b)"
  define u where "u = snd (take_sign b)"
  define ip where "ip = takeWhile isdigit u"
  define r where "r = dropWhile isdigit u"
  from assms(1) have ip: "ip \<noteq> []" and len: "length ip \<le> 308"
    and r: "case r of [] \<Rightarrow> True | c # fp \<Rightarrow> c = CHR ''.'' \<and> fp \<noteq> [] \<and> list_all isdigit fp"
    by (simp_all add: is_decimal_def decimal_digits_def u_def ip_def r_def)
  have ipd: "list_all isdigit ip"
    by (simp add: ip_def takeWhile_digits)
  have u: "u = ip @ r"
    by (simp add: ip_def r_def)
  from ip u have "b \<noteq> []"
    by (auto simp: u_def)
  then have ts: "take_sign (b @ tail) = (neg, u @ tail)"
    by (simp add: take_sign_append neg_def u_def)
  show ?thesis
  proof (cases r)
    case Nil
    with u have uip: "u = ip" by simp
    from ipd assms(2) have "scan_float (b @ tail) = scan_float_convert neg ip [] False False [] tail"
      by (simp add: scan_float_def ts uip scan_float_digits_def digits_then_stop
            scan_float_point_def scan_float_exponent_def)
    also from ip ipd len have "\<dots> = (Some (round_double (float_value neg ip [] False [])), tail)"
      by (simp add: scan_float_convert_plain)
    also from ipd have "float_value neg ip [] False [] = decimal_value b"
      by (simp add: float_value_plain decimal_value_def neg_def [symmetric] u_def [symmetric]
            uip filter_digits dropWhile_digits)
    finally show ?thesis .
  next
    case (Cons c fp)
    with r have c: "c = CHR ''.''" and fp: "fp \<noteq> []" and fpd: "list_all isdigit fp"
      by simp_all
    from u Cons c have uip: "u = ip @ CHR ''.'' # fp" by simp
    from ipd have t1: "takeWhile isdigit (ip @ CHR ''.'' # fp @ tail) = ip"
      and d1: "dropWhile isdigit (ip @ CHR ''.'' # fp @ tail) = CHR ''.'' # fp @ tail"
      by (simp_all add: digits_then_other)
    from fpd assms(2) have "scan_float (b @ tail) = scan_float_convert neg ip fp False False [] tail"
      by (simp add: scan_float_def ts uip scan_float_digits_def t1 d1 digits_then_stop
            scan_float_point_def scan_float_exponent_def)
    also from ip ipd fpd len have "\<dots> = (Some (round_double (float_value neg ip fp False [])), tail)"
      by (simp add: scan_float_convert_plain)
    also from ipd fpd have "float_value neg ip fp False [] = decimal_value b"
      by (simp add: float_value_plain decimal_value_def neg_def [symmetric] u_def [symmetric]
            uip filter_digits digits_then_other)
    finally show ?thesis .
  qed
qed

lemma decimal_first_char:
  assumes "is_decimal b"
  shows "b \<noteq> [] \<and> \<not> isspace (hd b)"
proof (cases b)
  case Nil
  with assms show ?thesis
    by (simp add: is_decimal_def decimal_digits_def)
next
  case (Cons c t)
  show ?thesis
  proof (cases "c = CHR ''-'' \<or> c = CHR ''+''")
    case True
    with Cons show ?thesis by (auto simp: isspace_def)
  next
    case False
    with Cons assms have "takeWhile isdigit (c # t) \<noteq> []"
      by (simp add: is_decimal_def decimal_digits_def)
    then have "isdigit c"
      by (simp split: if_splits)
    with Cons show ?thesis
      by (auto simp: isspace_def isdigit_def)
  qed
qed

lemma extract_double_decimal:
  assumes "is_decimal b" and "stops tail"
  shows "extract_double (Good (b @ tail)) =
           (Some (round_double (decimal_value b)), if tail = [] then NotGood else Good tail)"
proof -
  from decimal_first_char [OF assms(1)] have "dropWhile isspace (b @ tail) = b @ tail"
    by (cases b) simp_all
  moreover from decimal_first_char [OF assms(1)] have "b @ tail \<noteq> []"
    by simp
  ultimately show ?thesis
    by (simp add: extract_double_def scan_decimal [OF assms])
qed

lemma scan_no_mantissa:
  assumes "\<not> has_mantissa s"
  shows "fst (scan_float s) = None"
proof -
  define neg where "neg = fst (take_sign s)"
  define u where "u = snd (take_sign s)"
  have none: "fst (scan_float_exponent neg [] [] rest) = None" for rest
    by (simp add: scan_float_exponent_def scan_float_convert_def)
  have start: "scan_float s = scan_float_point neg (takeWhile isdigit u) (dropWhile isdigit u)"
    by (simp add: scan_float_def scan_float_digits_def neg_def u_def)
  show ?thesis
  proof (cases u)
    case Nil
    then show ?thesis
      by (simp add: start scan_float_point_def none)
  next
    case (Cons c t)
    with assms have c: "\<not> isdigit c" and t: "c = CHR ''.'' \<Longrightarrow> t = [] \<or> \<not> isdigit (hd t)"
      by (auto simp: has_mantissa_def u_def [symmetric])
    show ?thesis
    proof (cases "c = CHR ''.''")
      case True
      with t have "takeWhile isdigit t = []"
        by (cases t) auto
      with Cons c True show ?thesis
        by (simp add: start scan_float_point_def none)
    next
      case False
      with Cons c show ?thesis
        by (simp add: start scan_float_point_def none)
    qed
  qed
qed

lemma stops_no_mantissa: "stops tail \<Longrightarrow> \<not> has_mantissa tail"
  by (cases tail) (auto simp: has_mantissa_def stops_def isdigit_def)

lemma not_number_then_stop:
  assumes "\<not> starts_number b" and "stops tail"
  shows "\<not> has_mantissa (dropWhile isspace (b @ tail))"
proof (cases "dropWhile isspace b")
  case Nil
  then have "dropWhile isspace (b @ tail) = dropWhile isspace tail"
    by (simp add: dropWhile_append2)
  with assms(2) show ?thesis
    by (simp add: stops_no_mantissa)
next
  case (Cons a w)
  then have "\<exists>x\<in>set b. \<not> isspace x"
    by (metis dropWhile_eq_Nil_conv list.distinct(1))
  then have dw: "dropWhile isspace (b @ tail) = (a # w) @ tail"
    using Cons by (auto simp: dropWhile_append1)
  have ts: "take_sign ((a # w) @ tail) = (fst (take_sign (a # w)), snd (take_sign (a # w)) @ tail)"
    by (rule take_sign_append) simp
  from assms(1) Cons have nm: "\<not> has_mantissa (a # w)"
    by (simp add: starts_number_def)
  show ?thesis
  proof (cases "snd (take_sign (a # w))")
    case Nil
    with assms(2) show ?thesis
      using stops_no_mantissa [of tail]
      by (simp add: dw has_mantissa_def ts del: take_sign.simps append_Cons)
  next
    case u: (Cons c t)
    with nm have c: "\<not> isdigit c" and t: "c = CHR ''.'' \<Longrightarrow> t = [] \<or> \<not> isdigit (hd t)"
      by (auto simp: has_mantissa_def simp del: take_sign.simps)
    have "\<not> (c = CHR ''.'' \<and> t @ tail \<noteq> [] \<and> isdigit (hd (t @ tail)))"
    proof (cases t)
      case Nil
      with assms(2) show ?thesis
        by (cases tail) (auto simp: stops_def isdigit_def)
    next
      case (Cons x xs)
      with t show ?thesis by auto
    qed
    moreover have "has_mantissa (dropWhile isspace (b @ tail)) =
        (isdigit c \<or> (c = CHR ''.'' \<and> t @ tail \<noteq> [] \<and> isdigit (hd (t @ tail))))"
      by (simp only: dw has_mantissa_def ts snd_conv u) (simp only: append_Cons list.case)
    ultimately show ?thesis
      using c by simp
  qed
qed

lemma extract_double_not_number:
  assumes "\<not> starts_number b" and "stops tail"
  shows "fst (extract_double (Good (b @ tail))) = None"
proof -
  from not_number_then_stop [OF assms]
  have "fst (scan_float (dropWhile isspace (b @ tail))) = None"
    by (rule scan_no_mantissa)
  then show ?thesis
    by (cases "scan_float (dropWhile isspace (b @ tail))") (simp add: extract_double_def)
qed

subsection \<open>Accepted and rejected rows\<close>

lemma stops_Nil [simp]: "stops []"
  by (simp add: stops_def)

lemma stops_comma [simp]: "stops (CHR '','' # s)"
  by (simp add: stops_def)

lemma row_three_fields:
  assumes "3 \<le> length (fields row)"
  shows "\<exists>p r b tail. row = p @ CHR '','' # r @ CHR '','' # b @ tail \<and>
           CHR '','' \<notin> set p \<and> CHR '','' \<notin> set r \<and> stops tail \<and>
           fields row ! 0 = p \<and> fields row ! 1 = r \<and> fields row ! 2 = b \<and>
           (tail = [] \<longleftrightarrow> length (fields row) = 3)"
proof -
  from assms have "2 \<le> length (fields row)" by simp
  from fields_two_or_more [OF this] obtain p r1
    where row: "row = p @ CHR '','' # r1" and p: "CHR '','' \<notin> set p"
      and f1: "fields row = p # fields r1"
    by blast
  from assms f1 have "2 \<le> length (fields r1)" by simp
  from fields_two_or_more [OF this] obtain r r2
    where r1: "r1 = r @ CHR '','' # r2" and r: "CHR '','' \<notin> set r"
      and f2: "fields r1 = r # fields r2"
    by blast
  obtain b more where f3: "fields r2 = b # more"
    by (cases "fields r2") simp_all
  from fields_decomp [OF f3]
  have "\<exists>tail. r2 = b @ tail \<and> stops tail \<and> (tail = [] \<longleftrightarrow> more = [])"
    by (cases "more = []") auto
  then obtain tail where r2: "r2 = b @ tail" and tail: "stops tail" and e: "tail = [] \<longleftrightarrow> more = []"
    by blast
  from row r1 r2 p r tail e f1 f2 f3 show ?thesis
    by (intro exI [of _ p] exI [of _ r] exI [of _ b] exI [of _ tail]) simp
qed

lemma read_row_three:
  assumes "CHR '','' \<notin> set p" and "CHR '','' \<notin> set r"
  shows "read_row (p @ CHR '','' # r @ CHR '','' # rest) =
     (case extract_double (Good rest) of
        (None, iss3) \<Rightarrow> None
      | (Some v, iss3) \<Rightarrow>
          (case getline iss3 (CHR '','') of
             (None, iss4) \<Rightarrow> None
           | (Some type_col, iss4) \<Rightarrow> Some (r, new_Vehicle p r v type_col)))"
proof -
  from assms(1) have g1: "getline (Good (p @ CHR '','' # r @ CHR '','' # rest)) (CHR '','') =
      (Some p, Good (r @ CHR '','' # rest))"
    by (rule getline_delim)
  from assms(2) have g2: "getline (Good (r @ CHR '','' # rest)) (CHR '','') = (Some r, Good rest)"
    by (rule getline_delim)
  show ?thesis
    unfolding read_row_def by (simp only: g1 g2 prod.case option.case)
qed

lemma read_row_well_formed:
  assumes "well_formed_row row"
  shows "read_row row =
     Some (row_rfid row,
           new_Vehicle (fields row ! 0) (row_rfid row)
             (round_double (decimal_value (fields row ! 2))) [])"
proof -
  from assms have len: "length (fields row) = 4" and dec: "is_decimal (fields row ! 2)"
    by (simp_all add: well_formed_row_def)
  from len have "3 \<le> length (fields row)" by simp
  from row_three_fields [OF this] obtain p r b tail
    where row: "row = p @ CHR '','' # r @ CHR '','' # b @ tail"
      and p: "CHR '','' \<notin> set p" and r: "CHR '','' \<notin> set r" and tail: "stops tail"
      and f: "fields row ! 0 = p" "fields row ! 1 = r" "fields row ! 2 = b"
      and e: "tail = [] \<longleftrightarrow> length (fields row) = 3"
    by blast
  from e len tail obtain t where t: "tail = CHR '','' # t"
    by (cases tail) (auto simp: stops_def)
  from dec f have "is_decimal b" by simp
  from extract_double_decimal [OF this tail] t
  have x: "extract_double (Good (b @ tail)) =
      (Some (round_double (decimal_value b)), Good (CHR '','' # t))"
    by simp
  have "read_row row = Some (r, new_Vehicle p r (round_double (decimal_value b)) [])"
    unfolding row read_row_three [OF p r] x by simp
  with f show ?thesis
    by (simp add: row_rfid_def)
qed

text \<open>
  Every well-formed row is stored under its rfid with its plate and its balance (the
  \<^verbatim>\<open>double\<close> nearest to the decimal), and with the unknown class, whatever its type
  column says.
\<close>

lemma well_formed_row_stored:
  assumes "well_formed_row row"
  shows "\<exists>vehicle. read_row row = Some (fields row ! 1, vehicle) \<and>
           plate vehicle = fields row ! 0 \<and> rfidTag vehicle = fields row ! 1 \<and>
           balance vehicle = round_double (decimal_value (fields row ! 2)) \<and>
           vehicleClass vehicle = Unknown"
  using read_row_well_formed [OF assms]
  by (simp add: new_Vehicle_def class_of_type_def row_rfid_def)

lemma read_row_malformed:
  assumes "malformed_row row"
  shows "read_row row = None"
proof (cases "3 \<le> length (fields row)")
  case True
  from row_three_fields [OF this] obtain p r b tail
    where row: "row = p @ CHR '','' # r @ CHR '','' # b @ tail"
      and p: "CHR '','' \<notin> set p" and r: "CHR '','' \<notin> set r" and tail: "stops tail"
      and f: "fields row ! 2 = b"
      and e: "tail = [] \<longleftrightarrow> length (fields row) = 3"
    by blast
  show ?thesis
  proof (cases "starts_number b")
    case False
    from extract_double_not_number [OF this tail]
    obtain iss3 where "extract_double (Good (b @ tail)) = (None, iss3)"
      by (cases "extract_double (Good (b @ tail))") simp
    then show ?thesis
      unfolding row read_row_three [OF p r] by simp
  next
    case number: True
    with assms True f have "length (fields row) = 3" and dec: "is_decimal b"
      by (simp_all add: malformed_row_def)
    with e have "tail = []" by simp
    with extract_double_decimal [OF dec tail]
    have "extract_double (Good (b @ tail)) = (Some (round_double (decimal_value b)), NotGood)"
      by simp
    then show ?thesis
      unfolding row read_row_three [OF p r] by simp
  qed
next
  case False
  obtain f fs where f: "fields row = f # fs"
    by (cases "fields row") simp_all
  show ?thesis
  proof (cases "fs = []")
    case True
    with fields_decomp [OF f] have "CHR '','' \<notin> set row"
      by simp
    then have "getline (Good row) (CHR '','') = (if row = [] then None else Some row, NotGood)"
      by (rule getline_no_delim)
    then show ?thesis
      unfolding read_row_def by simp
  next
    case more: False
    with fields_decomp [OF f] obtain r1 where row: "row = f @ CHR '','' # r1"
      and f1: "fields r1 = fs" and nf: "CHR '','' \<notin> set f"
      by auto
    from False f f1 more have "length (fields r1) = 1"
      by (cases fs) (auto simp: not_le)
    then obtain g where g: "fields r1 = [g]"
      by (cases "fields r1") auto
    with fields_decomp [OF g] have "CHR '','' \<notin> set r1"
      by simp
    then have g2: "getline (Good r1) (CHR '','') = (if r1 = [] then None else Some r1, NotGood)"
      by (rule getline_no_delim)
    from nf have g1: "getline (Good (f @ CHR '','' # r1)) (CHR '','') = (Some f, Good r1)"
      by (rule getline_delim)
    show ?thesis
      unfolding read_row_def row
      by (simp only: g1 g2 prod.case option.case) (simp add: extract_double_def)
  qed
qed

lemma accepted_are_well_formed:
  assumes "\<forall>row \<in> set rows. well_formed_row row \<or> malformed_row row"
  shows "map fst (List.map_filter read_row rows) = map row_rfid (filter well_formed_row rows)"
  using assms
proof (induction rows)
  case Nil
  show ?case by simp
next
  case (Cons row rows)
  then have IH: "map fst (List.map_filter read_row rows) = map row_rfid (filter well_formed_row rows)"
    by simp
  show ?case
  proof (cases "well_formed_row row")
    case True
    then show ?thesis
      by (simp add: read_row_well_formed IH)
  next
    case False
    with Cons.prems have "malformed_row row"
      by simp
    then have "read_row row = None"
      by (rule read_row_malformed)
    with False show ?thesis
      by (simp add: IH)
  qed
qed

lemmas row_eval = well_formed_row_def malformed_row_def is_decimal_def decimal_digits_def
  starts_number_def has_mantissa_def row_rfid_def isdigit_def isspace_def

text \<open>
  Claim C7, as amended. For a registry file whose rows after the header are each
  well-formed or malformed, where the well-formed rows carry pairwise distinct rfids, the
  freshly constructed system holds exactly as many vehicles as the file has well-formed
  rows. When the file cannot be opened, the system is constructed all the same: one entry
  goes to the error log and the registry is empty. The decimal of a well-formed row is an
  optional sign, one to 308 digits and, if any, a point followed by at least one digit.
\<close>

theorem registry_counts_well_formed_rows:
  assumes "\<forall>row \<in> set (tl (stream_lines (Good content))). well_formed_row row \<or> malformed_row row"
    and "distinct (map row_rfid (filter well_formed_row (tl (stream_lines (Good content)))))"
  shows "card (dom (registeredVehicles (new_TollSystem now lg config (Some content)))) =
           length (filter well_formed_row (tl (stream_lines (Good content)))) \<and>
         new_TollSystem now lg config None =
           \<lparr>logger = logError now ''Could not open registered vehicles file'' lg,
            configManager = config, registeredVehicles = Map.empty\<rparr>"
proof -
  let ?rows = "tl (stream_lines (Good content))"
  have "dom (registeredVehicles (new_TollSystem now lg config (Some content))) =
      set (map fst (accepted_rows content))"
    by (simp add: registeredVehicles_new dom_map_of_conv_image_fst)
  also from assms(1) have "map fst (accepted_rows content) = map row_rfid (filter well_formed_row ?rows)"
    unfolding accepted_rows_def by (rule accepted_are_well_formed)
  finally have "card (dom (registeredVehicles (new_TollSystem now lg config (Some content)))) =
      card (set (map row_rfid (filter well_formed_row ?rows)))"
    by simp
  also from assms(2) have "\<dots> = length (map row_rfid (filter well_formed_row ?rows))"
    by (rule distinct_card)
  finally show ?thesis
    by (simp add: new_TollSystem_def loadRegisteredVehicles_def)
qed

text \<open>
  Claim C7 as stated fails: two well-formed rows with the same rfid give one vehicle,
  not two (the later row replaces the earlier one).
\<close>

theorem duplicate_rfid_rows_merge:
  "length (filter well_formed_row (tl (stream_lines (Good
      ''plate,rfid,balance,type\<newline>ABC123,RF1,100.0,car\<newline>XYZ789,RF1,250.0,truck\<newline>'')))) = 2 \<and>
   card (dom (registeredVehicles (new_TollSystem clock0 logger0 config0 (Some
      ''plate,rfid,balance,type\<newline>ABC123,RF1,100.0,car\<newline>XYZ789,RF1,250.0,truck\<newline>'')))) = 1"
proof -
  have "dom (registeredVehicles (new_TollSystem clock0 logger0 config0 (Some
      ''plate,rfid,balance,type\<newline>ABC123,RF1,100.0,car\<newline>XYZ789,RF1,250.0,truck\<newline>''))) = {''RF1''}"
    by (simp add: registeredVehicles_new accepted_rows_duplicate)
  then show ?thesis
    by (simp add: stream_lines_step row_eval)
qed

theorem registry_counts_well_formed_rows_witness:
  "card (dom (registeredVehicles (new_TollSystem clock0 logger0 config0 (Some
      ''plate,rfid,balance,type\<newline>ABC123,RF1234567,100.0,car\<newline>broken,row\<newline>XYZ789,RF7654321,abc,truck\<newline>XYZ789,RF7654321,250.0,truck\<newline>'')))) = 2 \<and>
   new_TollSystem clock0 logger0 config0 None =
     \<lparr>logger = logError clock0 ''Could not open registered vehicles file'' logger0,
      configManager = config0, registeredVehicles = Map.empty\<rparr>"
proof -
  have rows: "tl (stream_lines (Good
      ''plate,rfid,balance,type\<newline>ABC123,RF1234567,100.0,car\<newline>broken,row\<newline>XYZ789,RF7654321,abc,truck\<newline>XYZ789,RF7654321,250.0,truck\<newline>'')) =
      [''ABC123,RF1234567,100.0,car'', ''broken,row'', ''XYZ789,RF7654321,abc,truck'',
       ''XYZ789,RF7654321,250.0,truck'']"
    by (simp add: stream_lines_step)
  have r1: "well_formed_row ''ABC123,RF1234567,100.0,car''" by (simp add: row_eval)
  have r2: "malformed_row ''broken,row'' \<and> \<not> well_formed_row ''broken,row''" by (simp add: row_eval)
  have r3: "malformed_row ''XYZ789,RF7654321,abc,truck'' \<and> \<not> well_formed_row ''XYZ789,RF7654321,abc,truck''"
    by (simp add: row_eval)
  have r4: "well_formed_row ''XYZ789,RF7654321,250.0,truck''" by (simp add: row_eval)
  have ids: "row_rfid ''ABC123,RF1234567,100.0,car'' = ''RF1234567'' \<and>
      row_rfid ''XYZ789,RF7654321,250.0,truck'' = ''RF7654321''"
    by (simp add: row_rfid_def)
  show ?thesis
    using registry_counts_well_formed_rows [of
      "''plate,rfid,balance,type\<newline>ABC123,RF1234567,100.0,car\<newline>broken,row\<newline>XYZ789,RF7654321,abc,truck\<newline>XYZ789,RF7654321,250.0,truck\<newline>''"
      clock0 logger0 config0]
    unfolding rows
    by (simp add: r1 r2 r3 r4 ids)
qed

text \<open>
  Rows outside the amended claim: a balance that is a number followed by other text is
  read up to that text, and the row is stored, also when it has three fields only.
\<close>

lemma number_with_trailing_text_accepted:
  "read_row ''ABC123,RF1,1.5.3,car'' = Some (''RF1'', new_Vehicle ''ABC123'' ''RF1'' (3 / 2) ''.3'') \<and>
   read_row ''ABC123,RF1,12 kg'' = Some (''RF1'', new_Vehicle ''ABC123'' ''RF1'' 12 '' kg'')"
  by (simp add: read_row_eval)

section \<open>Rounding and underflow\<close>

text \<open>
  A number read from a file is held as the nearest \<^verbatim>\<open>double\<close>: a balance of
  \<^verbatim>\<open>0.1\<close> is stored as \<open>3602879701896397 / 2 ^ 55\<close>, and a balance of \<^verbatim>\<open>1e-400\<close> as 0.
  \<^verbatim>\<open>std::stod\<close> throws \<^verbatim>\<open>out_of_range\<close> on the texts that \<^verbatim>\<open>strtod\<close> reports as
  underflow, such as \<^verbatim>\<open>1e-400\<close> and \<^verbatim>\<open>4.9e-324\<close>.
\<close>

lemma floor_numeral_quotient:
  "\<lfloor>(numeral a :: rat) / numeral b\<rfloor> = numeral a div numeral b"
proof -
  have "\<lfloor>(of_int (numeral a) :: rat) / of_int (numeral b)\<rfloor> = numeral a div numeral b"
    by (rule floor_divide_of_int_eq)
  then show ?thesis
    by simp
qed

lemma ceiling_numeral_quotient:
  "\<lceil>(numeral a :: rat) / numeral b\<rceil> = - ((- numeral a) div numeral b)"
proof -
  have "\<lfloor>(of_int (- numeral a) :: rat) / of_int (numeral b)\<rfloor> = (- numeral a) div numeral b"
    by (rule floor_divide_of_int_eq)
  then show ?thesis
    by (simp add: ceiling_def)
qed

lemma round_double_tenth: "round_double (1 / 10) = 3602879701896397 / 2 ^ 55"
  by (simp add: round_double_def ulp_def ilog2_def pow2_def round_half_even_def bit_length.simps
        floor_numeral_quotient ceiling_numeral_quotient)

lemma row_tenth_balance:
  "read_row ''ABC123,RF1,0.1,car'' =
     Some (''RF1'', new_Vehicle ''ABC123'' ''RF1'' (3602879701896397 / 2 ^ 55) [])"
  by (simp add: read_row_eval floor_numeral_quotient ceiling_numeral_quotient)

lemma bit_length_nonneg: "0 \<le> bit_length n"
proof (induction n rule: bit_length.induct)
  case (1 n)
  then show ?case
    by (subst bit_length.simps) simp
qed

lemma bit_length_above: "2 ^ k \<le> n \<Longrightarrow> int k < bit_length n"
proof (induction k arbitrary: n)
  case 0
  then have "0 < n" by simp
  then have "bit_length n = bit_length (n div 2) + 1"
    by (subst bit_length.simps) simp
  with bit_length_nonneg [of "n div 2"] show ?case
    by simp
next
  case (Suc k)
  have p: "(0::int) < 2 * 2 ^ k"
    by simp
  from Suc.prems have le: "2 * 2 ^ k \<le> n"
    by simp
  from p le have "0 < n"
    by (rule less_le_trans)
  from le have "2 ^ k \<le> n div 2"
    by simp
  note this \<open>0 < n\<close>
  from Suc.IH [OF this(1)] \<open>0 < n\<close> show ?case
    by (subst bit_length.simps) simp
qed

lemma ulp_subnormal:
  assumes "0 < x" and "x < 1 / 2 ^ 1022"
  shows "ulp x = 1 / 2 ^ 1074"
proof -
  from assms have "2 ^ 1022 < 1 / x"
    by (simp add: field_simps)
  also have "1 / x \<le> of_int \<lceil>1 / x\<rceil>"
    by (rule le_of_int_ceiling)
  finally have "(of_int (2 ^ 1022) :: rat) < of_int \<lceil>1 / x\<rceil>"
    by simp
  then have "(2 ^ 1022 :: int) < \<lceil>1 / x\<rceil>"
    by (simp only: of_int_less_iff)
  then have "2 ^ 1022 \<le> \<lceil>1 / x\<rceil> - 1"
    by simp
  from bit_length_above [OF this] have "1022 < bit_length (\<lceil>1 / x\<rceil> - 1)"
    by simp
  moreover have "(1::rat) / 2 ^ 1022 \<le> 1"
    by simp
  with assms(2) have "x < 1"
    by (rule less_le_trans)
  ultimately have "max (ilog2 \<bar>x\<bar>) (- 1022) = - 1022"
    using assms(1) by (simp add: ilog2_def)
  then show ?thesis
    by (simp add: ulp_def pow2_def)
qed

lemma tiny_rounds_to_zero:
  assumes "0 < x" and "x * 2 ^ 1075 < 1"
  shows "round_double x = 0"
proof -
  from assms(2) have "x < 1 / 2 ^ 1075"
    by (simp add: field_simps)
  also have "(1::rat) / 2 ^ 1075 < 1 / 2 ^ 1022"
    by simp
  finally have u: "ulp x = 1 / 2 ^ 1074"
    using assms(1) by (intro ulp_subnormal)
  from assms have lo: "0 \<le> x * 2 ^ 1074" and hi: "x * 2 ^ 1074 < 1 / 2"
    by simp_all
  then have "\<lfloor>x * 2 ^ 1074\<rfloor> = 0"
    by (intro floor_unique) simp_all
  with hi have "round_half_even (x * 2 ^ 1074) = 0"
    by (simp add: round_half_even_def)
  with assms(1) show ?thesis
    by (simp add: round_double_def u)
qed

lemma tiny_underflows:
  assumes "0 < x" and "x * 2 ^ 1075 < 1"
  shows "underflows x"
proof -
  from assms(2) have "x * 2 ^ 1076 < 2"
    by simp
  also have "(2::rat) < 2 ^ 54 - 1"
    by simp
  finally have "\<bar>x\<bar> * 2 ^ 1076 < 2 ^ 54 - 1"
    using assms(1) by simp
  with assms show ?thesis
    by (simp add: underflows_def tiny_rounds_to_zero)
qed

lemma stod_underflow: "stod ''1e-400'' = Inl out_of_range"
proof -
  have "underflows (1 / 10 ^ 400)"
    by (rule tiny_underflows) simp_all
  then show ?thesis
    by (simp add: stod_def strtod_dec_def strtod_hex_def exponent_part_def finite_double_def
          tolower_def isxdigit_def isdigit_def digits_val_def digit_val_def scale10_def isspace_def)
qed

lemma row_tiny_balance:
  "read_row ''ABC123,RF1,1e-400,car'' = Some (''RF1'', new_Vehicle ''ABC123'' ''RF1'' 0 [])"
proof -
  have "round_double (1 / 10 ^ 400) = 0"
    by (rule tiny_rounds_to_zero) simp_all
  moreover have "\<not> overflows (1 / 10 ^ 400)"
    by (simp add: overflows_def)
  ultimately show ?thesis
    by (simp add: read_row_def extract_double_def scan_float_def scan_float_digits_def
          scan_float_point_def scan_float_exponent_def scan_float_convert_def float_value_def
          isdigit_def digits_val_def digit_val_def scale10_def signed_def isspace_def)
qed

lemma stod_subnormal: "stod ''4.9e-324'' = Inl out_of_range"
proof -
  have u: "ulp (49 / 10 ^ 325) = 1 / 2 ^ 1074"
    by (rule ulp_subnormal) simp_all
  have r: "round_double (49 / 10 ^ 325) = 1 / 2 ^ 1074"
    unfolding round_double_def u
    by (simp add: round_half_even_def floor_numeral_quotient)
  have "underflows (49 / 10 ^ 325)"
    unfolding underflows_def r by simp
  then show ?thesis
    by (simp add: stod_def strtod_dec_def strtod_hex_def exponent_part_def finite_double_def
          tolower_def isxdigit_def isdigit_def digits_val_def digit_val_def scale10_def isspace_def)
qed

end
